theory Spec2Isabelle
  imports Main "HOL-Library.AList"
begin

text \<open>
  A shallow embedding of \<open>src/services/llm/claude-provider.ts\<close>: the stream normalizer
  \<open>ClaudeProvider.generateStream\<close>, the synthetic tools, and the round-based tool-calling
  loop of \<open>ActionImpl\<close> (\<open>handleHistoryImageMessages\<close>, \<open>executeSingleRound\<close>, \<open>execute\<close>).
  Every \<open>throw\<close> of the source is a value \<open>Inl e\<close>; every object that the source mutates is
  passed in and returned. What lies outside the file (the JavaScript runtime, the vendor's
  client, the tools and the hooks of the caller) is a parameter, and so is the order in which
  the runtime resumes the asynchronous units of work that the rounds launch. The model
  first, then the vocabulary of the properties, then the properties.
\<close>

section \<open>Values, exceptions and the canonical message model\<close>

text \<open>
  JavaScript values as far as the program inspects them: the members of a parsed JSON text
  plus \<open>undefined\<close>. An object is the list of its own properties in insertion order.
  Numbers are opaque to the program and are kept as integers.
\<close>

datatype jsval =
    JUndefined
  | JNull
  | JBool bool
  | JNum int
  | JStr string
  | JArr "jsval list"
  | JObj "(string \<times> jsval) list"

text \<open>
  What a \<open>throw\<close> carries. \<open>JsError\<close>, \<open>TypeError\<close> and \<open>SyntaxError\<close> are instances of
  \<open>Error\<close> and hold their \<open>message\<close>; \<open>Thrown\<close> is any other thrown value.
\<close>

datatype js_exn =
    JsError string
  | TypeError string
  | SyntaxError string
  | Thrown jsval

text \<open>
  Reading a property of \<open>undefined\<close> raises a TypeError. The wording of its message is the
  engine's; only the class of the exception matters below.
\<close>

definition readOfUndefined :: "string \<Rightarrow> js_exn" where
  "readOfUndefined p = TypeError (''Cannot read properties of undefined (reading '' @ p @ '')'')"

datatype Role = System | User | Assistant

text \<open>
  The sub-blocks of a \<open>tool_result\<close>: \<open>{type: 'text', text}\<close> and \<open>{type: 'image', source}\<close>.
  The \<open>text\<close> field holds what the program puts there (\<open>result.text\<close> of a tool, the value of
  \<open>JSON.stringify\<close>, or an error line), a string for every well-typed tool. The content of a
  \<open>tool_result\<close> is a string (the literal \<open>'skip'\<close>) or an array of sub-blocks.
\<close>

datatype SubBlock = SubText jsval | SubImage jsval

datatype ToolResultContent = ContentString string | ContentArray "SubBlock list"

text \<open>
  Content blocks: \<open>text{text}\<close>, \<open>tool_use{id, name, input}\<close>,
  \<open>tool_result{tool_use_id, content, is_error?}\<close> (an absent \<open>is_error\<close> is \<open>False\<close>) and
  \<open>image{source}\<close>.
\<close>

datatype ContentBlock =
    TextBlock string
  | ToolUseBlock string string jsval
  | ToolResultBlock string ToolResultContent bool
  | ImageBlock jsval

datatype MessageContent = Plain string | Blocks "ContentBlock list"

record Message =
  role :: Role
  content :: MessageContent

section \<open>History trimming: \<open>ActionImpl.handleHistoryImageMessages\<close>\<close>

text \<open>
  The innermost loop, \<open>for (k = tool_content.length - 1; k >= 0; k--)\<close>, removes in place
  (\<open>splice(k, 1)\<close>) every sub-block whose type is \<open>'image'\<close>. \<open>kLoop n tc\<close> is the loop with
  \<open>k = n - 1\<close> as its next index.
\<close>

fun isImage :: "SubBlock \<Rightarrow> bool" where
  "isImage (SubImage _) = True"
| "isImage (SubText _) = False"

definition splice1 :: "nat \<Rightarrow> 'a list \<Rightarrow> 'a list" where
  "splice1 k xs = take k xs @ drop (Suc k) xs"

fun kLoop :: "nat \<Rightarrow> SubBlock list \<Rightarrow> SubBlock list" where
  "kLoop 0 tool_content = tool_content"
| "kLoop (Suc k) tool_content =
     kLoop k (if isImage (tool_content ! k) then splice1 k tool_content else tool_content)"

text \<open>
  One step of the loop over the blocks of a message (index \<open>j\<close>). Only a \<open>tool_result\<close>
  whose content is an array is touched. For a non-empty array the images are spliced out.
  For an empty array the source takes its \<open>else\<close> branch and evaluates
  \<open>tool_content[0].type\<close>: element 0 of an empty array is \<open>undefined\<close>, so the read raises.
\<close>

fun handleBlock :: "ContentBlock \<Rightarrow> js_exn + ContentBlock" where
  "handleBlock (ToolResultBlock tid (ContentArray tool_content) is_error) =
     (if length tool_content > 0
      then Inr (ToolResultBlock tid (ContentArray (kLoop (length tool_content) tool_content)) is_error)
      else Inl (readOfUndefined ''type''))"
| "handleBlock b = Inr b"

fun jLoop :: "ContentBlock list \<Rightarrow> js_exn + ContentBlock list" where
  "jLoop [] = Inr []"
| "jLoop (b # bs) =
     (case handleBlock b of
        Inl e \<Rightarrow> Inl e
      | Inr b' \<Rightarrow> (case jLoop bs of Inl e \<Rightarrow> Inl e | Inr bs' \<Rightarrow> Inr (b' # bs')))"

text \<open>
  The outer loop, \<open>for (i = messages.length - 1; i >= 0; i--)\<close>, with its flag \<open>last_user\<close>.
  \<open>iLoop n last_user messages\<close> is the loop with \<open>i = n - 1\<close> as its next index. The source
  mutates the messages in place; the model returns the updated history, or the exception
  that escapes the function.
\<close>

fun iLoop :: "nat \<Rightarrow> bool \<Rightarrow> Message list \<Rightarrow> js_exn + Message list" where
  "iLoop 0 last_user messages = Inr messages"
| "iLoop (Suc i) last_user messages =
     (let message = messages ! i in
      if role message = User then
        (if last_user then iLoop i False messages
         else (case content message of
                 Blocks bs \<Rightarrow>
                   (case jLoop bs of
                      Inl e \<Rightarrow> Inl e
                    | Inr bs' \<Rightarrow> iLoop i False (messages[i := message\<lparr>content := Blocks bs'\<rparr>]))
               | Plain _ \<Rightarrow> iLoop i False messages))
      else iLoop i last_user messages)"

definition handleHistoryImageMessages :: "Message list \<Rightarrow> js_exn + Message list" where
  "handleHistoryImageMessages messages = iLoop (length messages) True messages"

section \<open>The host: what the JavaScript runtime supplies\<close>

text \<open>
  \<open>JSON.parse\<close>, \<open>JSON.stringify\<close> (with and without the indentation argument), the string
  conversion of template literals and \<open>String.prototype.trim\<close> belong to the runtime, not to
  the repository; they are parameters of the model. \<open>JSON.parse\<close> takes any value (it converts
  its argument to a string itself) and either returns the parsed value or raises.
  \<open>JSON.stringify\<close> returns a string or \<open>undefined\<close>. \<open>trim\<close> removes the white space and the
  line terminators of Unicode from both ends of a string.
\<close>

record Host =
  JSON_parse :: "jsval \<Rightarrow> js_exn + jsval"
  JSON_stringify :: "jsval \<Rightarrow> jsval"
  JSON_stringify_indent :: "jsval \<Rightarrow> jsval"
  ToString :: "jsval \<Rightarrow> string"
  String_trim :: "string \<Rightarrow> string"

text \<open>Truthiness, as \<open>if (x)\<close>, \<open>x || y\<close>, \<open>x && y\<close> and \<open>x ? a : b\<close> test it.\<close>

fun truthy :: "jsval \<Rightarrow> bool" where
  "truthy JUndefined = False"
| "truthy JNull = False"
| "truthy (JBool b) = b"
| "truthy (JNum n) = (n \<noteq> 0)"
| "truthy (JStr s) = (s \<noteq> [])"
| "truthy (JArr _) = True"
| "truthy (JObj _) = True"

text \<open>
  A property read \<open>v.p\<close>, and the destructuring \<open>const {p} = v\<close>: a TypeError on \<open>undefined\<close> and
  \<open>null\<close>, the own property of an object, \<open>undefined\<close> where there is none.
\<close>

fun getProp :: "jsval \<Rightarrow> string \<Rightarrow> js_exn + jsval" where
  "getProp JUndefined p = Inl (readOfUndefined p)"
| "getProp JNull p = Inl (readOfUndefined p)"
| "getProp (JObj kvs) p = Inr (case map_of kvs p of Some v \<Rightarrow> v | None \<Rightarrow> JUndefined)"
| "getProp _ p = Inr JUndefined"

section \<open>The stream normalizer: \<open>ClaudeProvider\<close>\<close>

record ToolCall =
  tc_id :: string
  tc_name :: string
  tc_input :: jsval

record PartialToolUse =
  pt_id :: string
  pt_name :: string
  accumulatedJson :: string

record ToolDefinition =
  name :: string
  description :: string
  input_schema :: jsval

record LLMParameters =
  model :: "string option"
  temperature :: jsval
  maxTokens :: "nat option"
  tools :: "ToolDefinition list option"
  toolChoice :: jsval

record LLMResponse =
  textContent :: "string option"
  response_content :: "ContentBlock list"
  toolCalls :: "ToolCall list"
  stop_reason :: jsval

text \<open>
  The vendor side. A request is what \<open>generateStream\<close> passes to \<open>client.messages.stream\<close>. The
  events of the returned stream are those the \<open>switch\<close> distinguishes; every other event, block
  or delta type is \<open>Other\<close>. A stream is the list of events the iteration delivers and then
  either the final message or the exception that the iteration or \<open>finalMessage()\<close> raises.
\<close>

record StreamRequest =
  req_system :: "string option"
  req_model :: string
  req_max_tokens :: nat
  req_temperature :: jsval
  req_messages :: "Message list"
  req_tools :: "ToolDefinition list option"
  req_tool_choice :: jsval

datatype BlockStart = StartText | StartToolUse string string | StartOther

datatype Delta = TextDelta string | InputJsonDelta string | OtherDelta

datatype RawEvent =
    ContentBlockStart BlockStart
  | ContentBlockDelta Delta
  | ContentBlockStop
  | OtherEvent

record VendorMessage =
  message_content :: "ContentBlock list"
  message_stop_reason :: jsval

record VendorStream =
  events :: "RawEvent list"
  finalMessage :: "js_exn + VendorMessage"

text \<open>
  The client is the only part of the provider that talks to the model. Two rounds may send
  the same request and receive different streams, so the client is also given the number of
  requests made before this one.
\<close>

record ClaudeProvider =
  client :: "nat \<Rightarrow> StreamRequest \<Rightarrow> js_exn + VendorStream"
  defaultModel :: string

text \<open>The calls a provider makes on its \<open>LLMStreamHandler\<close>, in the order it makes them.\<close>

datatype HandlerCall =
    OnStart
  | OnContent string
  | OnToolUse ToolCall
  | OnComplete LLMResponse
  | OnError js_exn

fun join :: "string \<Rightarrow> string list \<Rightarrow> string" where
  "join sep [] = []"
| "join sep [x] = x"
| "join sep (x # y # zs) = x @ sep @ join sep (y # zs)"

fun toolUseOf :: "ContentBlock \<Rightarrow> ToolCall option" where
  "toolUseOf (ToolUseBlock i n inp) = Some \<lparr>tc_id = i, tc_name = n, tc_input = inp\<rparr>"
| "toolUseOf _ = None"

fun textOf :: "ContentBlock \<Rightarrow> string option" where
  "textOf (TextBlock t) = Some t"
| "textOf _ = None"

definition processResponse :: "VendorMessage \<Rightarrow> LLMResponse" where
  "processResponse response =
     (let toolCalls = List.map_filter toolUseOf (message_content response);
          textContent = join [CHR 0x0A] (List.map_filter textOf (message_content response))
      in \<lparr>textContent = (if textContent = [] then None else Some textContent),
          response_content = message_content response,
          toolCalls = toolCalls,
          stop_reason = message_stop_reason response\<rparr>)"

text \<open>
  The system prompt of a request: \<open>messages.filter(role == 'system').map(...)[0]\<close>. The
  \<open>map\<close> runs over every system message before element 0 is taken; for a content array it reads
  \<open>content[0].text\<close>, which raises on an empty array and is \<open>undefined\<close> for a first block without
  a \<open>text\<close> field.
\<close>

fun systemText :: "Message \<Rightarrow> js_exn + string option" where
  "systemText m =
     (case content m of
        Plain s \<Rightarrow> Inr (Some s)
      | Blocks [] \<Rightarrow> Inl (readOfUndefined ''text'')
      | Blocks (TextBlock t # _) \<Rightarrow> Inr (Some t)
      | Blocks (_ # _) \<Rightarrow> Inr None)"

fun mapE :: "('a \<Rightarrow> js_exn + 'b) \<Rightarrow> 'a list \<Rightarrow> js_exn + 'b list" where
  "mapE f [] = Inr []"
| "mapE f (x # xs) =
     (case f x of
        Inl e \<Rightarrow> Inl e
      | Inr y \<Rightarrow> (case mapE f xs of Inl e \<Rightarrow> Inl e | Inr ys \<Rightarrow> Inr (y # ys)))"

definition systemOf :: "Message list \<Rightarrow> js_exn + string option" where
  "systemOf messages =
     (case mapE systemText (filter (\<lambda>s. role s = System) messages) of
        Inl e \<Rightarrow> Inl e
      | Inr [] \<Rightarrow> Inr None
      | Inr (x # _) \<Rightarrow> Inr x)"

text \<open>
  One turn of the \<open>switch\<close> inside \<open>for await (const event of stream)\<close>: the handler calls it
  makes and the new value of \<open>currentToolUse\<close>, or the exception raised (by \<open>JSON.parse\<close>).
  The handler callbacks of the round executor do not raise synchronously (\<open>onToolUse\<close> is an
  \<open>async\<close> function: it returns a promise, which the provider does not await), so a callback
  never breaks the iteration.
\<close>

fun switch :: "Host \<Rightarrow> RawEvent \<Rightarrow> PartialToolUse option \<Rightarrow> js_exn + (HandlerCall list \<times> PartialToolUse option)" where
  "switch host (ContentBlockStart StartText) currentToolUse = Inr ([OnContent []], currentToolUse)"
| "switch host (ContentBlockStart (StartToolUse i n)) currentToolUse =
     Inr ([], Some \<lparr>pt_id = i, pt_name = n, accumulatedJson = []\<rparr>)"
| "switch host (ContentBlockStart StartOther) currentToolUse = Inr ([], currentToolUse)"
| "switch host (ContentBlockDelta (TextDelta t)) currentToolUse = Inr ([OnContent t], currentToolUse)"
| "switch host (ContentBlockDelta (InputJsonDelta partial_json)) currentToolUse =
     (case currentToolUse of
        Some cur \<Rightarrow> Inr ([], Some (cur\<lparr>accumulatedJson := accumulatedJson cur @ partial_json\<rparr>))
      | None \<Rightarrow> Inr ([], None))"
| "switch host (ContentBlockDelta OtherDelta) currentToolUse = Inr ([], currentToolUse)"
| "switch host ContentBlockStop currentToolUse =
     (case currentToolUse of
        Some cur \<Rightarrow>
          (case JSON_parse host (JStr (if accumulatedJson cur = [] then ''{}'' else accumulatedJson cur)) of
             Inl e \<Rightarrow> Inl e
           | Inr parsed \<Rightarrow>
               Inr ([OnToolUse \<lparr>tc_id = pt_id cur, tc_name = pt_name cur, tc_input = parsed\<rparr>], None))
      | None \<Rightarrow> Inr ([], None))"
| "switch host OtherEvent currentToolUse = Inr ([], currentToolUse)"

text \<open>
  The iteration: the handler calls made while the events are consumed, and the exception
  that ended the iteration early, if one did.
\<close>

fun forAwait :: "Host \<Rightarrow> PartialToolUse option \<Rightarrow> RawEvent list \<Rightarrow> HandlerCall list \<times> js_exn option" where
  "forAwait host currentToolUse [] = ([], None)"
| "forAwait host currentToolUse (event # rest) =
     (case switch host event currentToolUse of
        Inl e \<Rightarrow> ([], Some e)
      | Inr (calls, currentToolUse') \<Rightarrow>
          (case forAwait host currentToolUse' rest of (calls', thrown) \<Rightarrow> (calls @ calls', thrown)))"

text \<open>
  \<open>generateStream\<close>. An exception before the \<open>try\<close> (while the system prompt is computed or
  the stream is opened) rejects the call. Inside the \<open>try\<close>, an exception ends the iteration
  and is passed to \<open>onError\<close>; otherwise the final message is passed to \<open>onComplete\<close>.
\<close>

definition generateStream ::
  "Host \<Rightarrow> ClaudeProvider \<Rightarrow> nat \<Rightarrow> Message list \<Rightarrow> LLMParameters \<Rightarrow> js_exn + HandlerCall list" where
  "generateStream host provider n messages params =
     (case systemOf messages of
        Inl e \<Rightarrow> Inl e
      | Inr system \<Rightarrow>
          (case client provider n
                  \<lparr>req_system = system,
                   req_model = (case model params of Some m \<Rightarrow> if m = [] then defaultModel provider else m
                                | None \<Rightarrow> defaultModel provider),
                   req_max_tokens = (case maxTokens params of Some t \<Rightarrow> if t = 0 then 4096 else t | None \<Rightarrow> 4096),
                   req_temperature = temperature params,
                   req_messages = filter (\<lambda>s. role s \<noteq> System) messages,
                   req_tools = tools params,
                   req_tool_choice = toolChoice params\<rparr> of
             Inl e \<Rightarrow> Inl e
           | Inr stream \<Rightarrow>
               (case forAwait host None (events stream) of
                  (calls, Some e) \<Rightarrow> Inr (OnStart # calls @ [OnError e])
                | (calls, None) \<Rightarrow>
                    (case finalMessage stream of
                       Inl e \<Rightarrow> Inr (OnStart # calls @ [OnError e])
                     | Inr message \<Rightarrow> Inr (OnStart # calls @ [OnComplete (processResponse message)])))))"

section \<open>Execution context, tools and hooks\<close>

text \<open>
  The part of the \<open>ExecutionContext\<close> that tools, hooks and the loop change: the variable
  store (a \<open>Map\<close>, kept as the list of its entries in insertion order; \<open>set\<close> on a present key
  replaces the entry in place) and the flags \<open>__skip\<close> and \<open>__abort\<close>. Keys are compared
  structurally, which is \<open>Map\<close>'s comparison for strings and the other primitives.
\<close>

record ExecutionContext =
  variables :: "(jsval \<times> jsval) list"
  ctx_skip :: bool
  ctx_abort :: bool

text \<open>
  A tool is its definition and \<open>execute(context, params)\<close>, which returns a result or raises,
  and leaves the context as it has changed it.
\<close>

record Tool = ToolDefinition +
  execute :: "ExecutionContext \<Rightarrow> jsval \<Rightarrow> (js_exn + jsval) \<times> ExecutionContext"

text \<open>
  \<open>context.callback.hooks\<close>: each hook takes the tool, the context and the input (or the
  result) and returns a replacement, or a falsy value to keep what it was given.
\<close>

record Hooks =
  beforeToolUse :: "(Tool \<Rightarrow> ExecutionContext \<Rightarrow> jsval \<Rightarrow> (js_exn + jsval) \<times> ExecutionContext) option"
  afterToolUse :: "(Tool \<Rightarrow> ExecutionContext \<Rightarrow> jsval \<Rightarrow> (js_exn + jsval) \<times> ExecutionContext) option"

text \<open>
  The members of the context that the loop only reads: \<open>context.tools\<close> and
  \<open>context.callback\<close>, both optional.
\<close>

record Caller =
  context_tools :: "Tool list option"
  callback :: "Hooks option"

subsection \<open>The synthetic tools\<close>

definition WriteContextTool_execute ::
  "Host \<Rightarrow> ExecutionContext \<Rightarrow> jsval \<Rightarrow> (js_exn + jsval) \<times> ExecutionContext" where
  "WriteContextTool_execute host ctx params =
     (case getProp params ''key'' of
        Inl e \<Rightarrow> (Inl e, ctx)
      | Inr key \<Rightarrow>
          (case getProp params ''value'' of
             Inl e \<Rightarrow> (Inl e, ctx)
           | Inr val \<Rightarrow>
               (Inr (JObj [(''success'', JBool True), (''key'', key), (''value'', val)]),
                (case JSON_parse host val of
                   Inr parsedValue \<Rightarrow> ctx\<lparr>variables := AList.update key parsedValue (variables ctx)\<rparr>
                 | Inl _ \<Rightarrow> ctx\<lparr>variables := AList.update key val (variables ctx)\<rparr>))))"

definition WriteContextTool :: "Host \<Rightarrow> Tool" where
  "WriteContextTool host =
     \<lparr>name = ''write_context'',
      description = ''Write a value to the workflow context. Use this to store intermediate results or outputs.'',
      input_schema = JObj
        [(''type'', JStr ''object''),
         (''properties'', JObj
            [(''key'', JObj [(''type'', JStr ''string''),
                             (''description'', JStr ''The key to store the value under'')]),
             (''value'', JObj [(''type'', JStr ''string''),
                               (''description'', JStr ''The value to store (must be JSON stringified if object/array)'')])]),
         (''required'', JArr [JStr ''key'', JStr ''value''])],
      execute = WriteContextTool_execute host\<rparr>"

definition returnTool_execute :: "ExecutionContext \<Rightarrow> jsval \<Rightarrow> (js_exn + jsval) \<times> ExecutionContext" where
  "returnTool_execute ctx params =
     (case getProp params ''value'' of
        Inl e \<Rightarrow> (Inl e, ctx)
      | Inr val \<Rightarrow>
          (Inr (JObj [(''returned'', val)]),
           ctx\<lparr>variables := AList.update (JStr ''__action_output'') val (variables ctx)\<rparr>))"

definition createReturnTool :: "jsval \<Rightarrow> Tool" where
  "createReturnTool outputSchema =
     \<lparr>name = ''return_output'',
      description = ''Return the final output of this action. Use this to return a value matching the required output schema.'',
      input_schema = JObj
        [(''type'', JStr ''object''),
         (''properties'', JObj
            [(''value'',
              (if truthy outputSchema then outputSchema
               else JObj [(''type'', JArr [JStr ''string'', JStr ''number'', JStr ''boolean'', JStr ''object'', JStr ''null'']),
                          (''description'', JStr ''The output value'')]))]),
         (''required'', JArr [JStr ''value''])],
      execute = returnTool_execute\<rparr>"

section \<open>The round executor: \<open>ActionImpl.executeSingleRound\<close>\<close>

text \<open>
  The action. \<open>maxRounds\<close> is a count of rounds. The constructor appends the write-context
  tool to the declared tools and keeps the default of 10 rounds unless \<open>config.maxRounds\<close> is
  given and truthy (not 0).
\<close>

record ActionImpl =
  action_name :: string
  action_description :: string
  action_tools :: "Tool list"
  llmProvider :: ClaudeProvider
  llmConfig :: "LLMParameters option"
  maxRounds :: nat

definition new_ActionImpl ::
  "Host \<Rightarrow> string \<Rightarrow> string \<Rightarrow> Tool list \<Rightarrow> ClaudeProvider \<Rightarrow> LLMParameters option \<Rightarrow> nat option \<Rightarrow> ActionImpl" where
  "new_ActionImpl host nm descr declared provider config config_maxRounds =
     \<lparr>action_name = nm,
      action_description = descr,
      action_tools = declared @ [WriteContextTool host],
      llmProvider = provider,
      llmConfig = config,
      maxRounds = (case config_maxRounds of Some n \<Rightarrow> if n = 0 then 10 else n | None \<Rightarrow> 10)\<rparr>"

text \<open>
  The local variables of one round. Every \<open>onToolUse\<close> that finds its tool launches a unit of
  work; the units launched so far are numbered in the order of their launch, and
  \<open>toolExecutionPromise\<close> holds the number of the unit whose promise was assigned to it last.
\<close>

record RoundVars =
  roundMessages :: "Message list"
  hasToolUse :: bool
  response :: "LLMResponse option"
  assistantTextMessage :: string
  toolUseMessage :: "Message option"
  toolResultMessage :: "Message option"
  toolExecutionPromise :: "nat option"

definition initialRoundVars :: RoundVars where
  "initialRoundVars =
     \<lparr>roundMessages = [], hasToolUse = False, response = None, assistantTextMessage = [],
      toolUseMessage = None, toolResultMessage = None, toolExecutionPromise = None\<rparr>"

subsection \<open>The messages of a unit of work\<close>

definition errorMessageOf :: "js_exn \<Rightarrow> string" where
  "errorMessageOf err =
     (case err of
        JsError m \<Rightarrow> m
      | TypeError m \<Rightarrow> m
      | SyntaxError m \<Rightarrow> m
      | Thrown _ \<Rightarrow> ''Unknown error occurred'')"

definition errorResult :: "ToolCall \<Rightarrow> js_exn \<Rightarrow> Message" where
  "errorResult toolCall err =
     \<lparr>role = User,
      content = Blocks [ToolResultBlock (tc_id toolCall)
                          (ContentArray [SubText (JStr (''Error: '' @ errorMessageOf err))]) True]\<rparr>"

definition skipResult :: "ToolCall \<Rightarrow> Message" where
  "skipResult toolCall =
     \<lparr>role = User, content = Blocks [ToolResultBlock (tc_id toolCall) (ContentString ''skip'') False]\<rparr>"

text \<open>
  The message built from a tool's result. \<open>result.image && result.image.type\<close> reads a
  property of \<open>result\<close> and raises if the result is \<open>undefined\<close> or \<open>null\<close>.
\<close>

definition resultMessage :: "Host \<Rightarrow> ToolCall \<Rightarrow> jsval \<Rightarrow> js_exn + Message" where
  "resultMessage host toolCall result =
     (case getProp result ''image'' of
        Inl e \<Rightarrow> Inl e
      | Inr img \<Rightarrow>
          (case (if truthy img then getProp img ''type'' else Inr img) of
             Inl e \<Rightarrow> Inl e
           | Inr cond \<Rightarrow>
               (if truthy cond then
                  (case getProp result ''text'' of
                     Inl e \<Rightarrow> Inl e
                   | Inr txt \<Rightarrow>
                       Inr \<lparr>role = User,
                            content = Blocks [ToolResultBlock (tc_id toolCall)
                              (ContentArray (if truthy txt then [SubImage img, SubText txt] else [SubImage img]))
                              False]\<rparr>)
                else
                  Inr \<lparr>role = User,
                       content = Blocks [ToolResultBlock (tc_id toolCall)
                         (ContentArray [SubText (JSON_stringify host result)]) False]\<rparr>)))"

subsection \<open>The units of work and their interleaving\<close>

text \<open>
  The unit of work that \<open>onToolUse\<close> launches is the body of an \<open>async\<close> function. It runs
  with the handler up to its first \<open>await\<close>; every \<open>await\<close> suspends it, and the runtime
  resumes it later: while the stream is still consumed, between the steps of other units,
  while the round waits, or after the round has returned. A unit has three \<open>await\<close>s (the
  \<open>beforeToolUse\<close> hook, \<open>tool.execute\<close>, the \<open>afterToolUse\<close> hook). So a unit is suspended at one
  of the three, holding what it needs to go on and the outcome it is waiting for, or it has
  settled, and then it has assigned a message to \<open>toolResultMessage\<close>.

  Hooks and tools are parameters. A call of one changes the context at the call; its
  outcome, a value or the exception raised, is what the unit sees when it is resumed.
\<close>

datatype UnitStage =
    AwaitBefore Tool ToolCall "js_exn + jsval"
  | AwaitExecute Tool ToolCall "js_exn + jsval"
  | AwaitAfter ToolCall jsval "js_exn + jsval"
  | Settled Message

text \<open>
  A unit assigns to the \<open>toolResultMessage\<close> of the round that launched it, a variable that
  nothing reads once that round has returned. \<open>current\<close> tells whether the round that launched
  the unit is the round that is running.
\<close>

record ToolUnit =
  stage :: UnitStage
  current :: bool

definition detach :: "ToolUnit \<Rightarrow> ToolUnit" where
  "detach u = u\<lparr>current := False\<rparr>"

text \<open>\<open>context.callback && context.callback.hooks.h\<close>\<close>

definition hookOf ::
  "Hooks option \<Rightarrow> (Hooks \<Rightarrow> (Tool \<Rightarrow> ExecutionContext \<Rightarrow> jsval \<Rightarrow> (js_exn + jsval) \<times> ExecutionContext) option) \<Rightarrow>
   (Tool \<Rightarrow> ExecutionContext \<Rightarrow> jsval \<Rightarrow> (js_exn + jsval) \<times> ExecutionContext) option" where
  "hookOf cb which = (case cb of None \<Rightarrow> None | Some hooks \<Rightarrow> which hooks)"

text \<open>\<open>toolResultMessage = m\<close>, as a unit of the running round or of an earlier round does it.\<close>

definition assign :: "bool \<Rightarrow> Message \<Rightarrow> RoundVars \<Rightarrow> RoundVars" where
  "assign cur m v = (if cur then v\<lparr>toolResultMessage := Some m\<rparr> else v)"

text \<open>
  The pieces of the unit between its \<open>await\<close>s. Each gives the local variables and the context
  as it leaves them and the stage at which the unit then is. \<open>caught\<close> is the \<open>catch\<close> block;
  \<open>built\<close> is the end of the \<open>try\<close> block, from \<open>const resultMessage\<close> on, an exception there being
  caught like any other; \<open>afterBefore\<close> is the \<open>try\<close> block from the test of \<open>__skip\<close> and \<open>__abort\<close>
  to the call of the tool; \<open>start\<close> is its beginning, which runs inside \<open>onToolUse\<close>.
\<close>

definition caught ::
  "bool \<Rightarrow> ToolCall \<Rightarrow> js_exn \<Rightarrow> RoundVars \<Rightarrow> ExecutionContext \<Rightarrow> RoundVars \<times> ExecutionContext \<times> UnitStage" where
  "caught cur toolCall err v ctx =
     (assign cur (errorResult toolCall err) v, ctx, Settled (errorResult toolCall err))"

definition built ::
  "Host \<Rightarrow> bool \<Rightarrow> ToolCall \<Rightarrow> jsval \<Rightarrow> RoundVars \<Rightarrow> ExecutionContext \<Rightarrow> RoundVars \<times> ExecutionContext \<times> UnitStage" where
  "built host cur toolCall result v ctx =
     (case resultMessage host toolCall result of
        Inr m \<Rightarrow> (assign cur m v, ctx, Settled m)
      | Inl err \<Rightarrow> caught cur toolCall err v ctx)"

definition afterBefore ::
  "bool \<Rightarrow> Tool \<Rightarrow> ToolCall \<Rightarrow> RoundVars \<Rightarrow> ExecutionContext \<Rightarrow> RoundVars \<times> ExecutionContext \<times> UnitStage" where
  "afterBefore cur tool toolCall v ctx =
     (if ctx_skip ctx \<or> ctx_abort ctx then (assign cur (skipResult toolCall) v, ctx, Settled (skipResult toolCall))
      else
        (case execute tool ctx (tc_input toolCall) of
           (outcome, ctx') \<Rightarrow> (v, ctx', AwaitExecute tool toolCall outcome)))"

definition start ::
  "Hooks option \<Rightarrow> Tool \<Rightarrow> ToolCall \<Rightarrow> RoundVars \<Rightarrow> ExecutionContext \<Rightarrow> RoundVars \<times> ExecutionContext \<times> UnitStage" where
  "start cb tool toolCall v ctx =
     (let ctx1 = ctx\<lparr>ctx_skip := False\<rparr> in
      case hookOf cb beforeToolUse of
        Some hook \<Rightarrow>
          (case hook tool ctx1 (tc_input toolCall) of
             (outcome, ctx2) \<Rightarrow> (v, ctx2, AwaitBefore tool toolCall outcome))
      | None \<Rightarrow> afterBefore True tool toolCall v ctx1)"

text \<open>
  The resumption of a suspended unit: it sees the outcome it was waiting for and runs to
  its next \<open>await\<close> or to its end. A settled unit is not resumed.
\<close>

fun resumeStage ::
  "Host \<Rightarrow> Hooks option \<Rightarrow> bool \<Rightarrow> UnitStage \<Rightarrow> RoundVars \<Rightarrow> ExecutionContext \<Rightarrow>
   RoundVars \<times> ExecutionContext \<times> UnitStage" where
  "resumeStage host cb cur (AwaitBefore tool toolCall outcome) v ctx =
     (case outcome of
        Inl err \<Rightarrow> caught cur toolCall err v ctx
      | Inr modified_input \<Rightarrow>
          afterBefore cur tool (if truthy modified_input then toolCall\<lparr>tc_input := modified_input\<rparr> else toolCall) v ctx)"
| "resumeStage host cb cur (AwaitExecute tool toolCall outcome) v ctx =
     (case outcome of
        Inl err \<Rightarrow> caught cur toolCall err v ctx
      | Inr result \<Rightarrow>
          (case hookOf cb afterToolUse of
             Some hook \<Rightarrow>
               (case hook tool ctx result of
                  (outcome', ctx') \<Rightarrow> (v, ctx', AwaitAfter toolCall result outcome'))
           | None \<Rightarrow> built host cur toolCall result v ctx))"
| "resumeStage host cb cur (AwaitAfter toolCall result outcome) v ctx =
     (case outcome of
        Inl err \<Rightarrow> caught cur toolCall err v ctx
      | Inr modified_result \<Rightarrow>
          built host cur toolCall (if truthy modified_result then modified_result else result) v ctx)"
| "resumeStage host cb cur (Settled m) v ctx = (v, ctx, Settled m)"

text \<open>
  What the units share: the local variables of the running round, the context, and the
  units themselves. \<open>resume i\<close> resumes unit \<open>i\<close>; a number that names no unit does nothing.
\<close>

fun resume ::
  "Host \<Rightarrow> Hooks option \<Rightarrow> nat \<Rightarrow> RoundVars \<times> ExecutionContext \<times> ToolUnit list \<Rightarrow>
   RoundVars \<times> ExecutionContext \<times> ToolUnit list" where
  "resume host cb i (v, ctx, pool) =
     (if i < length pool then
        (case resumeStage host cb (current (pool ! i)) (stage (pool ! i)) v ctx of
           (v', ctx', stage') \<Rightarrow> (v', ctx', pool[i := (pool ! i)\<lparr>stage := stage'\<rparr>]))
      else (v, ctx, pool))"

text \<open>
  The order in which the runtime resumes the suspended units is not the program's. It is a
  parameter, the schedule: for each point at which the round or \<open>execute\<close> is itself suspended,
  in the order in which these points are reached, the units that are resumed there, each for
  one step, in that order. A schedule that is used up resumes nothing.
\<close>

type_synonym Schedule = "nat list list"

fun schedulingPoint ::
  "Host \<Rightarrow> Hooks option \<Rightarrow> Schedule \<times> RoundVars \<times> ExecutionContext \<times> ToolUnit list \<Rightarrow>
   Schedule \<times> RoundVars \<times> ExecutionContext \<times> ToolUnit list" where
  "schedulingPoint host cb ([], s) = ([], s)"
| "schedulingPoint host cb (steps # schedule, s) = (schedule, foldl (\<lambda>s i. resume host cb i s) s steps)"

subsection \<open>The stream handler\<close>

definition onContent :: "Host \<Rightarrow> string \<Rightarrow> RoundVars \<Rightarrow> RoundVars" where
  "onContent host chunk v =
     (if String_trim host chunk \<noteq> [] then v\<lparr>assistantTextMessage := assistantTextMessage v @ chunk\<rparr> else v)"

text \<open>
  \<open>onToolUse\<close> is an \<open>async\<close> function: its \<open>throw\<close> rejects the promise it returns. The first
  component of the result is that rejection, if any. When the tool is found, the handler
  buffers the tool-use message, launches the unit, which runs up to its first \<open>await\<close>, and
  assigns the promise of the unit to \<open>toolExecutionPromise\<close>, whatever that variable held. The
  units launched before keep running.
\<close>

definition onToolUse ::
  "Host \<Rightarrow> Hooks option \<Rightarrow> (string \<times> Tool) list \<Rightarrow> ToolCall \<Rightarrow> RoundVars \<Rightarrow> ExecutionContext \<Rightarrow> ToolUnit list \<Rightarrow>
   js_exn option \<times> RoundVars \<times> ExecutionContext \<times> ToolUnit list" where
  "onToolUse host cb toolMap toolCall v ctx pool =
     (let v1 = v\<lparr>hasToolUse := True\<rparr> in
      case map_of toolMap (tc_name toolCall) of
        None \<Rightarrow> (Some (JsError (''Tool not found: '' @ tc_name toolCall)), v1, ctx, pool)
      | Some tool \<Rightarrow>
          (let v2 = v1\<lparr>toolUseMessage :=
                          Some \<lparr>role = Assistant,
                                content = Blocks [ToolUseBlock (tc_id toolCall) (name tool) (tc_input toolCall)]\<rparr>\<rparr>
           in case start cb tool toolCall v2 ctx of
                (v3, ctx', stage') \<Rightarrow>
                  (None, v3\<lparr>toolExecutionPromise := Some (length pool)\<rparr>, ctx',
                   pool @ [\<lparr>stage = stage', current = True\<rparr>])))"

text \<open>
  One handler call as the provider makes it. The handler has no \<open>onStart\<close>. The provider calls
  \<open>handler.onToolUse?.(toolCall)\<close> without awaiting the promise, so a rejection of that promise
  reaches neither the \<open>catch\<close> of \<open>generateStream\<close> nor the round; what the runtime does
  with a rejection that nobody handles is not part of the program. \<open>onError\<close> only logs.
\<close>

fun deliver ::
  "Host \<Rightarrow> Hooks option \<Rightarrow> (string \<times> Tool) list \<Rightarrow> RoundVars \<times> ExecutionContext \<times> ToolUnit list \<Rightarrow> HandlerCall \<Rightarrow>
   RoundVars \<times> ExecutionContext \<times> ToolUnit list" where
  "deliver host cb toolMap (v, ctx, pool) OnStart = (v, ctx, pool)"
| "deliver host cb toolMap (v, ctx, pool) (OnContent chunk) = (onContent host chunk v, ctx, pool)"
| "deliver host cb toolMap (v, ctx, pool) (OnToolUse toolCall) =
     (case onToolUse host cb toolMap toolCall v ctx pool of (rejected, s) \<Rightarrow> s)"
| "deliver host cb toolMap (v, ctx, pool) (OnComplete llmResponse) = (v\<lparr>response := Some llmResponse\<rparr>, ctx, pool)"
| "deliver host cb toolMap (v, ctx, pool) (OnError e) = (v, ctx, pool)"

text \<open>
  \<open>await this.llmProvider.generateStream(messages, params, handler)\<close>: the provider is
  suspended before each of its handler calls (while the stream is opened, at each turn of
  \<open>for await\<close>, at \<open>await stream.finalMessage()\<close>), and the units that the schedule names run
  there.
\<close>

fun drive ::
  "Host \<Rightarrow> Hooks option \<Rightarrow> (string \<times> Tool) list \<Rightarrow> HandlerCall list \<Rightarrow>
   Schedule \<times> RoundVars \<times> ExecutionContext \<times> ToolUnit list \<Rightarrow> Schedule \<times> RoundVars \<times> ExecutionContext \<times> ToolUnit list" where
  "drive host cb toolMap [] x = x"
| "drive host cb toolMap (call # calls) x =
     (case schedulingPoint host cb x of
        (schedule, s) \<Rightarrow> drive host cb toolMap calls (schedule, deliver host cb toolMap s call))"

text \<open>
  A unit runs until it has settled: at most three resumptions, one for each \<open>await\<close>.
\<close>

definition settle ::
  "Host \<Rightarrow> Hooks option \<Rightarrow> nat \<Rightarrow> RoundVars \<times> ExecutionContext \<times> ToolUnit list \<Rightarrow>
   RoundVars \<times> ExecutionContext \<times> ToolUnit list" where
  "settle host cb i s = resume host cb i (resume host cb i (resume host cb i s))"

text \<open>
  \<open>if (toolExecutionPromise) await toolExecutionPromise\<close>. The round is suspended since
  \<open>generateStream\<close> made its last handler call; the units that the schedule names run; then
  the round goes on if no promise was assigned, and otherwise once the unit of the promise
  has settled. Only that unit is waited for: a unit launched before it may still be
  suspended when the round goes on, and a unit that settles after it, but before the round
  goes on, assigns \<open>toolResultMessage\<close> after it.
\<close>

definition await ::
  "Host \<Rightarrow> Hooks option \<Rightarrow> Schedule \<times> RoundVars \<times> ExecutionContext \<times> ToolUnit list \<Rightarrow>
   Schedule \<times> RoundVars \<times> ExecutionContext \<times> ToolUnit list" where
  "await host cb x =
     (case schedulingPoint host cb x of
        (schedule, v, ctx, pool) \<Rightarrow>
          (case toolExecutionPromise v of
             None \<Rightarrow> (schedule, v, ctx, pool)
           | Some i \<Rightarrow> (schedule, settle host cb i (v, ctx, pool))))"

text \<open>The three pushes that assemble \<open>roundMessages\<close>.\<close>

definition assemble :: "RoundVars \<Rightarrow> RoundVars" where
  "assemble v =
     v\<lparr>roundMessages :=
         roundMessages v
         @ (if assistantTextMessage v \<noteq> [] then [\<lparr>role = Assistant, content = Plain (assistantTextMessage v)\<rparr>] else [])
         @ (case toolUseMessage v of Some m \<Rightarrow> [m] | None \<Rightarrow> [])
         @ (case toolResultMessage v of Some m \<Rightarrow> [m] | None \<Rightarrow> [])\<rparr>"

text \<open>
  The round. It is given the schedule and the units that earlier rounds have left running,
  which are not units of this round. The result is the rejection of the round or its final
  local variables (of which the source returns \<open>response\<close>, \<open>hasToolUse\<close> and \<open>roundMessages\<close>),
  with the history as \<open>handleHistoryImageMessages\<close> has changed it in place, the rest of the
  schedule, and the context and the units as they are when the round returns. When
  \<open>handleHistoryImageMessages\<close> raises, the history is given back as it was: the exception
  ends \<open>execute\<close>, which owns the history.
\<close>

definition executeSingleRound ::
  "Host \<Rightarrow> ClaudeProvider \<Rightarrow> Hooks option \<Rightarrow> nat \<Rightarrow> Message list \<Rightarrow> LLMParameters \<Rightarrow> (string \<times> Tool) list \<Rightarrow>
   Schedule \<Rightarrow> ExecutionContext \<Rightarrow> ToolUnit list \<Rightarrow>
   (js_exn + RoundVars) \<times> Message list \<times> Schedule \<times> ExecutionContext \<times> ToolUnit list" where
  "executeSingleRound host provider cb n messages params toolMap schedule ctx pool =
     (case handleHistoryImageMessages messages of
        Inl e \<Rightarrow> (Inl e, messages, schedule, ctx, pool)
      | Inr messages' \<Rightarrow>
          (case generateStream host provider n messages' params of
             Inl e \<Rightarrow> (Inl e, messages', schedule, ctx, pool)
           | Inr calls \<Rightarrow>
               (case await host cb (drive host cb toolMap calls (schedule, initialRoundVars, ctx, map detach pool)) of
                  (schedule', v, ctx', pool') \<Rightarrow>
                    (if ctx_abort ctx' then (Inl (JsError ''Abort''), messages', schedule', ctx', pool')
                     else (Inr (assemble v), messages', schedule', ctx', pool')))))"

section \<open>The action loop: \<open>ActionImpl.execute\<close>\<close>

definition formatSystemPrompt :: string where
  "formatSystemPrompt =
     ''You are a task executor. You need to complete the task specified by the user, using the tools provided. When you need to store results or outputs, use the write_context tool. When you are ready to return the final output, use the return_output tool.''
     @ [CHR 0x0A, CHR 0x0A] @ ''    Remember to:''
     @ [CHR 0x0A] @ ''    1. Use tools when needed to accomplish the task''
     @ [CHR 0x0A] @ ''    2. Store important results using write_context, including intermediate and final results''
     @ [CHR 0x0A] @ ''    3. Think step by step about what needs to be done''"

text \<open>A value inside a template literal: a string as it is, anything else as the host converts it.\<close>

definition interpolate :: "Host \<Rightarrow> jsval \<Rightarrow> string" where
  "interpolate host v = (case v of JStr s \<Rightarrow> s | _ \<Rightarrow> ToString host v)"

definition formatUserPrompt :: "Host \<Rightarrow> ActionImpl \<Rightarrow> ExecutionContext \<Rightarrow> jsval \<Rightarrow> string" where
  "formatUserPrompt host action ctx inp =
     (let contextDescription =
            join [CHR 0x0A]
              (map (\<lambda>(key, v). interpolate host key @ '': '' @ interpolate host (JSON_stringify host v))
                 (variables ctx));
          shown = (case inp of JStr s \<Rightarrow> JStr s | _ \<Rightarrow> JSON_stringify_indent host inp)
      in ''You are executing the action '' @ [CHR 0x22] @ action_name action @ [CHR 0x22]
         @ ''. The specific instructions are: '' @ [CHR 0x22] @ action_description action @ [CHR 0x22]
         @ ''. You have access to the following context:'' @ [CHR 0x0A, CHR 0x0A] @ ''    ''
         @ (if contextDescription \<noteq> [] then contextDescription else ''No context variables set'')
         @ [CHR 0x0A, CHR 0x0A] @ ''    You have been provided with the following input:'' @ [CHR 0x0A] @ ''    ''
         @ (if truthy shown then interpolate host shown else ''No additional input provided'')
         @ [CHR 0x0A] @ ''    '')"

definition toolDefinitionOf :: "Tool \<Rightarrow> ToolDefinition" where
  "toolDefinitionOf tool =
     \<lparr>name = name tool, description = description tool, input_schema = input_schema tool\<rparr>"

text \<open>
  The tool map is a \<open>Map\<close> from names to tools, kept as the list of its entries in insertion
  order. \<open>setAll\<close> is \<open>tools.forEach((tool) => toolMap.set(tool.name, tool))\<close>.
\<close>

definition setAll :: "(string \<times> Tool) list \<Rightarrow> Tool list \<Rightarrow> (string \<times> Tool) list" where
  "setAll toolMap ts = foldl (\<lambda>m tool. AList.update (name tool) tool m) toolMap ts"

definition buildToolMap :: "ActionImpl \<Rightarrow> Caller \<Rightarrow> Tool \<Rightarrow> (string \<times> Tool) list" where
  "buildToolMap action caller returnTool =
     AList.update (name returnTool) returnTool
       (setAll (setAll [] (action_tools action))
          (case context_tools caller of Some ts \<Rightarrow> ts | None \<Rightarrow> []))"

text \<open>
  The variables of \<open>execute\<close> that the loop changes, with the context, the rest of the
  schedule and the units launched so far, and two fields that the source does not have:
  \<open>rounds\<close> counts the calls of \<open>executeSingleRound\<close>, and \<open>failure\<close> holds the exception that
  ended \<open>execute\<close>, if one did.
\<close>

record LoopState =
  roundCount :: nat
  lastResponse :: "LLMResponse option"
  loop_messages :: "Message list"
  loop_context :: ExecutionContext
  loop_schedule :: Schedule
  loop_units :: "ToolUnit list"
  rounds :: nat
  failure :: "js_exn option"

text \<open>
  \<open>await this.executeSingleRound(...)\<close> on the history and the context of the loop. When the
  round has returned, \<open>execute\<close> is still suspended, and the units that the schedule names
  run before it goes on; the local variables of the round are no longer read.
\<close>

definition runRound ::
  "Host \<Rightarrow> ActionImpl \<Rightarrow> Caller \<Rightarrow> LLMParameters \<Rightarrow> (string \<times> Tool) list \<Rightarrow> LoopState \<Rightarrow>
   (js_exn + RoundVars) \<times> LoopState" where
  "runRound host action caller params toolMap st =
     (case executeSingleRound host (llmProvider action) (callback caller) (rounds st) (loop_messages st)
             params toolMap (loop_schedule st) (loop_context st) (loop_units st) of
        (out, messages', schedule', ctx', pool') \<Rightarrow>
          (case schedulingPoint host (callback caller) (schedule', initialRoundVars, ctx', map detach pool') of
             (schedule'', v, ctx'', pool'') \<Rightarrow>
               (out, st\<lparr>loop_messages := messages', loop_context := ctx'', loop_schedule := schedule'',
                        loop_units := pool'', rounds := rounds st + 1\<rparr>)))"

text \<open>
  The forced final round, which the source writes out twice with two instructions: push the
  instruction, run a round restricted to the return tool, push its messages.
\<close>

definition forcedRound ::
  "Host \<Rightarrow> ActionImpl \<Rightarrow> Caller \<Rightarrow> LLMParameters \<Rightarrow> Tool \<Rightarrow> string \<Rightarrow> LoopState \<Rightarrow> LoopState" where
  "forcedRound host action caller params returnTool instruction st =
     (case runRound host action caller (params\<lparr>tools := Some [toolDefinitionOf returnTool]\<rparr>)
             [(name returnTool, returnTool)]
             (st\<lparr>loop_messages := loop_messages st @ [\<lparr>role = User, content = Plain instruction\<rparr>]\<rparr>) of
        (Inl e, st') \<Rightarrow> st'\<lparr>failure := Some e\<rparr>
      | (Inr finalRound, st') \<Rightarrow> st'\<lparr>loop_messages := loop_messages st' @ roundMessages finalRound\<rparr>)"

definition pleaseProcess :: string where
  "pleaseProcess = ''Please process the above information and return a final result using the return_output tool.''"

definition maximumReached :: string where
  "maximumReached = ''Maximum number of steps reached. Please return the best result possible with the return_output tool.''"

text \<open>\<open>response?.toolCalls.some((call) => call.name === 'return_output')\<close>\<close>

definition returnOutputCalled :: "LLMResponse option \<Rightarrow> bool" where
  "returnOutputCalled r =
     (case r of None \<Rightarrow> False | Some resp \<Rightarrow> list_ex (\<lambda>call. tc_name call = ''return_output'') (toolCalls resp))"

function whileLoop ::
  "Host \<Rightarrow> ActionImpl \<Rightarrow> Caller \<Rightarrow> LLMParameters \<Rightarrow> (string \<times> Tool) list \<Rightarrow> Tool \<Rightarrow> LoopState \<Rightarrow> LoopState" where
  "whileLoop host action caller params toolMap returnTool st =
     (if roundCount st < maxRounds action then
        (case runRound host action caller params toolMap (st\<lparr>roundCount := roundCount st + 1\<rparr>) of
           (Inl e, st1) \<Rightarrow> st1\<lparr>failure := Some e\<rparr>
         | (Inr r, st1) \<Rightarrow>
             (let st2 = st1\<lparr>lastResponse := response r, loop_messages := loop_messages st1 @ roundMessages r\<rparr> in
              if \<not> hasToolUse r \<and> response r \<noteq> None then
                forcedRound host action caller params returnTool pleaseProcess st2
              else if returnOutputCalled (response r) then st2
              else if roundCount st2 = maxRounds action then
                (let st3 = forcedRound host action caller params returnTool maximumReached st2 in
                 if failure st3 \<noteq> None then st3
                 else whileLoop host action caller params toolMap returnTool st3)
              else whileLoop host action caller params toolMap returnTool st2))
      else st)"
  by pat_completeness auto

lemma roundCount_runRound:
  "(out, st') = runRound host action caller params toolMap st \<Longrightarrow> roundCount st' = roundCount st"
  by (auto simp: runRound_def split: prod.splits)

lemma roundCount_forcedRound:
  "roundCount (forcedRound host action caller params returnTool instruction st) = roundCount st"
proof (cases "runRound host action caller (params\<lparr>tools := Some [toolDefinitionOf returnTool]\<rparr>)
             [(name returnTool, returnTool)]
             (st\<lparr>loop_messages := loop_messages st @ [\<lparr>role = User, content = Plain instruction\<rparr>]\<rparr>)")
  case (Pair out st')
  then have "roundCount st' = roundCount st" using roundCount_runRound[OF Pair[symmetric]] by simp
  then show ?thesis using Pair by (cases out) (simp_all add: forcedRound_def)
qed

termination whileLoop
proof (relation "measure (\<lambda>(host, action, caller, params, toolMap, returnTool, st). maxRounds action - roundCount st)",
       goal_cases)
  case 1
  then show ?case by simp
next
  case (2 host action caller params toolMap returnTool st x y b xa xb)
  have "roundCount y = roundCount st + 1" using roundCount_runRound[OF 2(2)] by simp
  then have "roundCount xb = roundCount st + 1" using 2(4) 2(8) by (simp add: roundCount_forcedRound)
  then show ?case using 2(1) by simp
next
  case (3 host action caller params toolMap returnTool st x y b xa)
  have "roundCount y = roundCount st + 1" using roundCount_runRound[OF 3(2)] by simp
  then show ?case using 3(1) 3(4) by simp
qed

declare whileLoop.simps [simp del]

text \<open>
  \<open>execute\<close> up to the end of its loop: the return tool, the tool map, the initial messages,
  the parameters, and the loop from round 0, with no unit running and the schedule that the
  runtime will follow.
\<close>

definition emptyParameters :: LLMParameters where
  "emptyParameters = \<lparr>model = None, temperature = JUndefined, maxTokens = None, tools = None, toolChoice = JUndefined\<rparr>"

definition runLoop ::
  "Host \<Rightarrow> ActionImpl \<Rightarrow> Schedule \<Rightarrow> jsval \<Rightarrow> Caller \<Rightarrow> ExecutionContext \<Rightarrow> jsval \<Rightarrow> LoopState" where
  "runLoop host action schedule inp caller ctx outputSchema =
     (let returnTool = createReturnTool outputSchema;
          toolMap = buildToolMap action caller returnTool;
          params = (case llmConfig action of Some c \<Rightarrow> c | None \<Rightarrow> emptyParameters)
                     \<lparr>tools := Some (map (\<lambda>(k, tool). toolDefinitionOf tool) toolMap)\<rparr>
      in whileLoop host action caller params toolMap returnTool
           \<lparr>roundCount = 0, lastResponse = None,
            loop_messages = [\<lparr>role = System, content = Plain formatSystemPrompt\<rparr>,
                        \<lparr>role = User, content = Plain (formatUserPrompt host action ctx inp)\<rparr>],
            loop_context = ctx, loop_schedule = schedule, loop_units = [], rounds = 0, failure = None\<rparr>)"

text \<open>
  The end of \<open>execute\<close>: read \<open>__action_output\<close>, delete it, and return it, or \<open>{}\<close> when it is
  \<open>undefined\<close>. A failure of the loop rejects \<open>execute\<close> before the key is read or deleted.
\<close>

definition getOutput :: "ExecutionContext \<Rightarrow> jsval" where
  "getOutput ctx = (case map_of (variables ctx) (JStr ''__action_output'') of Some v \<Rightarrow> v | None \<Rightarrow> JUndefined)"

definition deleteOutput :: "ExecutionContext \<Rightarrow> ExecutionContext" where
  "deleteOutput ctx = ctx\<lparr>variables := AList.delete (JStr ''__action_output'') (variables ctx)\<rparr>"

definition ActionImpl_execute ::
  "Host \<Rightarrow> ActionImpl \<Rightarrow> Schedule \<Rightarrow> jsval \<Rightarrow> Caller \<Rightarrow> ExecutionContext \<Rightarrow> jsval \<Rightarrow>
   (js_exn + jsval) \<times> ExecutionContext" where
  "ActionImpl_execute host action schedule inp caller ctx outputSchema =
     (let st = runLoop host action schedule inp caller ctx outputSchema in
      case failure st of
        Some e \<Rightarrow> (Inl e, loop_context st)
      | None \<Rightarrow>
          (let output = getOutput (loop_context st) in
           (Inr (if output = JUndefined then JObj [] else output), deleteOutput (loop_context st))))"

section \<open>Vocabulary of the properties\<close>

subsection \<open>History trimming\<close>

text \<open>
  \<open>olderUser messages i\<close>: message \<open>i\<close> is a user message and not the most recent one (a later
  user message exists).
\<close>

definition olderUser :: "Message list \<Rightarrow> nat \<Rightarrow> bool" where
  "olderUser messages i =
     (i < length messages \<and> role (messages ! i) = User \<and>
      list_ex (\<lambda>m. role m = User) (drop (Suc i) messages))"

text \<open>A \<open>tool_result\<close> block whose content is the empty array, and a message that has one.\<close>

fun emptyArrayResult :: "ContentBlock \<Rightarrow> bool" where
  "emptyArrayResult (ToolResultBlock _ (ContentArray tool_content) _) = (tool_content = [])"
| "emptyArrayResult _ = False"

definition hasEmptyArrayResult :: "Message \<Rightarrow> bool" where
  "hasEmptyArrayResult m = (case content m of Blocks bs \<Rightarrow> list_ex emptyArrayResult bs | Plain _ \<Rightarrow> False)"

text \<open>
  The trimming as the specification words it: in every \<open>tool_result\<close> block whose content is a
  sequence, the image sub-blocks are taken out and the text sub-blocks stay, in their order.
\<close>

fun withoutImages :: "ContentBlock \<Rightarrow> ContentBlock" where
  "withoutImages (ToolResultBlock tid (ContentArray tool_content) is_error) =
     ToolResultBlock tid (ContentArray (filter (\<lambda>s. \<not> isImage s) tool_content)) is_error"
| "withoutImages b = b"

definition trimmedMessage :: "Message \<Rightarrow> Message" where
  "trimmedMessage m = (case content m of Blocks bs \<Rightarrow> m\<lparr>content := Blocks (map withoutImages bs)\<rparr> | Plain _ \<Rightarrow> m)"

text \<open>No \<open>tool_result\<close> block of the message holds an image sub-block.\<close>

fun imageFreeBlock :: "ContentBlock \<Rightarrow> bool" where
  "imageFreeBlock (ToolResultBlock _ (ContentArray tool_content) _) = list_all (\<lambda>s. \<not> isImage s) tool_content"
| "imageFreeBlock _ = True"

definition imageFree :: "Message \<Rightarrow> bool" where
  "imageFree m = (case content m of Blocks bs \<Rightarrow> list_all imageFreeBlock bs | Plain _ \<Rightarrow> True)"

text \<open>The part of the loop invariant of \<open>iLoop\<close> that speaks about the indices already visited.\<close>

definition olderAt :: "nat \<Rightarrow> bool \<Rightarrow> Message list \<Rightarrow> nat \<Rightarrow> bool" where
  "olderAt n last_user ms idx =
     (idx < n \<and> role (ms ! idx) = User \<and> (\<not> last_user \<or> (\<exists>j. idx < j \<and> j < n \<and> role (ms ! j) = User)))"

definition trimFails :: "nat \<Rightarrow> bool \<Rightarrow> Message list \<Rightarrow> bool" where
  "trimFails n lu ms = (\<exists>idx. olderAt n lu ms idx \<and> hasEmptyArrayResult (ms ! idx))"

definition trimOut :: "nat \<Rightarrow> bool \<Rightarrow> Message list \<Rightarrow> Message list" where
  "trimOut n lu ms = map (\<lambda>idx. if olderAt n lu ms idx then trimmedMessage (ms ! idx) else ms ! idx) [0..<length ms]"

text \<open>A history with an image in an older user message and one in the most recent.\<close>

definition example_history :: "Message list" where
  "example_history =
    [\<lparr>role = System, content = Plain ''s''\<rparr>,
     \<lparr>role = User, content = Blocks [ToolResultBlock ''t1'' (ContentArray [SubImage JNull, SubText (JStr ''a'')]) False]\<rparr>,
     \<lparr>role = Assistant, content = Plain ''b''\<rparr>,
     \<lparr>role = User, content = Blocks [ToolResultBlock ''t2'' (ContentArray [SubImage JNull]) False]\<rparr>]"

definition example_trimmed :: "Message list" where
  "example_trimmed =
    [\<lparr>role = System, content = Plain ''s''\<rparr>,
     \<lparr>role = User, content = Blocks [ToolResultBlock ''t1'' (ContentArray [SubText (JStr ''a'')]) False]\<rparr>,
     \<lparr>role = Assistant, content = Plain ''b''\<rparr>,
     \<lparr>role = User, content = Blocks [ToolResultBlock ''t2'' (ContentArray [SubImage JNull]) False]\<rparr>]"

text \<open>
  A history whose older tool results hold an image and no text, and what one trimming makes
  of it: the array of the older one is emptied in place.
\<close>

definition image_only_history :: "Message list" where
  "image_only_history =
     [\<lparr>role = User, content = Plain ''u''\<rparr>,
      \<lparr>role = User, content = Blocks [ToolResultBlock ''tu1'' (ContentArray [SubImage (JObj [(''type'', JStr ''base64'')])]) False]\<rparr>,
      \<lparr>role = User, content = Blocks [ToolResultBlock ''tu2'' (ContentArray [SubImage (JObj [(''type'', JStr ''base64'')])]) False]\<rparr>]"

definition emptied_history :: "Message list" where
  "emptied_history =
     [\<lparr>role = User, content = Plain ''u''\<rparr>,
      \<lparr>role = User, content = Blocks [ToolResultBlock ''tu1'' (ContentArray []) False]\<rparr>,
      \<lparr>role = User, content = Blocks [ToolResultBlock ''tu2'' (ContentArray [SubImage (JObj [(''type'', JStr ''base64'')])]) False]\<rparr>]"

subsection \<open>The stream normalizer\<close>

text \<open>
  A streamed tool-use block is its block-start event, the events that arrive before its
  block-stop event, and that event. The events in between are deltas and events that the
  \<open>switch\<close> ignores, and possibly the start of a text block; none of them is a block-stop
  event or the start of another tool-use block. What they contribute: the partial-JSON
  fragments, concatenated in arrival order, and the \<open>onContent\<close> calls.
\<close>

fun insideBlock :: "RawEvent \<Rightarrow> bool" where
  "insideBlock ContentBlockStop = False"
| "insideBlock (ContentBlockStart (StartToolUse _ _)) = False"
| "insideBlock _ = True"

fun jsonFragments :: "RawEvent list \<Rightarrow> string" where
  "jsonFragments [] = []"
| "jsonFragments (ContentBlockDelta (InputJsonDelta partial_json) # es) = partial_json @ jsonFragments es"
| "jsonFragments (_ # es) = jsonFragments es"

fun contentCalls :: "RawEvent list \<Rightarrow> HandlerCall list" where
  "contentCalls [] = []"
| "contentCalls (ContentBlockStart StartText # es) = OnContent [] # contentCalls es"
| "contentCalls (ContentBlockDelta (TextDelta t) # es) = OnContent t # contentCalls es"
| "contentCalls (_ # es) = contentCalls es"

fun isOnToolUse :: "HandlerCall \<Rightarrow> bool" where
  "isOnToolUse (OnToolUse _) = True"
| "isOnToolUse _ = False"

text \<open>
  The request that \<open>generateStream\<close> sends, and what \<open>generateStream\<close> does with the events
  from some point on when nothing has raised before and no tool-use block is open: the
  handler calls for these events, then \<open>onComplete\<close> or \<open>onError\<close>.
\<close>

definition streamRequest :: "ClaudeProvider \<Rightarrow> string option \<Rightarrow> Message list \<Rightarrow> LLMParameters \<Rightarrow> StreamRequest" where
  "streamRequest provider system messages params =
     \<lparr>req_system = system,
      req_model = (case model params of Some m \<Rightarrow> if m = [] then defaultModel provider else m
                   | None \<Rightarrow> defaultModel provider),
      req_max_tokens = (case maxTokens params of Some t \<Rightarrow> if t = 0 then 4096 else t | None \<Rightarrow> 4096),
      req_temperature = temperature params,
      req_messages = filter (\<lambda>s. role s \<noteq> System) messages,
      req_tools = tools params,
      req_tool_choice = toolChoice params\<rparr>"

definition closing :: "Host \<Rightarrow> RawEvent list \<Rightarrow> js_exn + VendorMessage \<Rightarrow> HandlerCall list" where
  "closing host rest final =
     (case forAwait host None rest of
        (calls, Some e) \<Rightarrow> calls @ [OnError e]
      | (calls, None) \<Rightarrow>
          (case final of
             Inl e \<Rightarrow> calls @ [OnError e]
           | Inr message \<Rightarrow> calls @ [OnComplete (processResponse message)]))"

subsection \<open>Round messages\<close>

text \<open>
  An assistant message with a \<open>tool_use\<close> block, and a user message with a \<open>tool_result\<close>
  block.
\<close>

fun isToolUse :: "ContentBlock \<Rightarrow> bool" where
  "isToolUse (ToolUseBlock _ _ _) = True"
| "isToolUse _ = False"

fun isToolResult :: "ContentBlock \<Rightarrow> bool" where
  "isToolResult (ToolResultBlock _ _ _) = True"
| "isToolResult _ = False"

definition isToolUseMessage :: "Message \<Rightarrow> bool" where
  "isToolUseMessage m =
     (role m = Assistant \<and> (case content m of Blocks bs \<Rightarrow> list_ex isToolUse bs | Plain _ \<Rightarrow> False))"

definition isToolResultMessage :: "Message \<Rightarrow> bool" where
  "isToolResultMessage m =
     (role m = User \<and> (case content m of Blocks bs \<Rightarrow> list_ex isToolResult bs | Plain _ \<Rightarrow> False))"

text \<open>A unit has settled; the number of \<open>await\<close>s that a unit may still have ahead.\<close>

fun settled :: "UnitStage \<Rightarrow> bool" where
  "settled (Settled _) = True"
| "settled _ = False"

fun awaitsAhead :: "UnitStage \<Rightarrow> nat" where
  "awaitsAhead (AwaitBefore _ _ _) = 3"
| "awaitsAhead (AwaitExecute _ _ _) = 2"
| "awaitsAhead (AwaitAfter _ _ _) = 1"
| "awaitsAhead (Settled _) = 0"


subsection \<open>A unit that is not interleaved\<close>

text \<open>
  The unit of work read as one piece, as it runs when nothing else runs between its
  \<open>await\<close>s: a hook call with its \<open>if (modified) ...\<close>, the \<open>try\<close> block with the message it
  assigns to \<open>toolResultMessage\<close> or the exception it raises, and the whole unit with its
  \<open>catch\<close>, each with the context as it leaves it.
\<close>

definition callHook ::
  "Hooks option \<Rightarrow> (Hooks \<Rightarrow> (Tool \<Rightarrow> ExecutionContext \<Rightarrow> jsval \<Rightarrow> (js_exn + jsval) \<times> ExecutionContext) option) \<Rightarrow>
   Tool \<Rightarrow> ExecutionContext \<Rightarrow> jsval \<Rightarrow> (js_exn + jsval) \<times> ExecutionContext" where
  "callHook cb which tool ctx v =
     (case hookOf cb which of
        None \<Rightarrow> (Inr v, ctx)
      | Some hook \<Rightarrow>
          (case hook tool ctx v of
             (Inl e, ctx') \<Rightarrow> (Inl e, ctx')
           | (Inr modified, ctx') \<Rightarrow> (Inr (if truthy modified then modified else v), ctx')))"

definition tryToolUse ::
  "Host \<Rightarrow> Hooks option \<Rightarrow> Tool \<Rightarrow> ToolCall \<Rightarrow> ExecutionContext \<Rightarrow> (js_exn + Message) \<times> ExecutionContext" where
  "tryToolUse host cb tool toolCall ctx =
     (case callHook cb beforeToolUse tool (ctx\<lparr>ctx_skip := False\<rparr>) (tc_input toolCall) of
        (Inl e, ctx1) \<Rightarrow> (Inl e, ctx1)
      | (Inr inp, ctx1) \<Rightarrow>
          (if ctx_skip ctx1 \<or> ctx_abort ctx1 then (Inr (skipResult toolCall), ctx1)
           else
             (case execute tool ctx1 inp of
                (Inl e, ctx2) \<Rightarrow> (Inl e, ctx2)
              | (Inr result, ctx2) \<Rightarrow>
                  (case callHook cb afterToolUse tool ctx2 result of
                     (Inl e, ctx3) \<Rightarrow> (Inl e, ctx3)
                   | (Inr result', ctx3) \<Rightarrow> (resultMessage host toolCall result', ctx3)))))"

definition toolExecution ::
  "Host \<Rightarrow> Hooks option \<Rightarrow> Tool \<Rightarrow> ToolCall \<Rightarrow> ExecutionContext \<Rightarrow> Message \<times> ExecutionContext" where
  "toolExecution host cb tool toolCall ctx =
     (case tryToolUse host cb tool toolCall ctx of
        (Inr m, ctx') \<Rightarrow> (m, ctx')
      | (Inl err, ctx') \<Rightarrow> (errorResult toolCall err, ctx'))"

text \<open>
  A suspended unit resumed once, and resumed until it has settled, without regard to the
  local variables; and the unit from the outcome of \<open>tool.execute\<close> on, read as one piece.
\<close>

definition runOn :: "Host \<Rightarrow> Hooks option \<Rightarrow> UnitStage \<times> ExecutionContext \<Rightarrow> UnitStage \<times> ExecutionContext" where
  "runOn host cb x =
     (case x of (st, ctx) \<Rightarrow>
        (case resumeStage host cb False st initialRoundVars ctx of (v, ctx', st') \<Rightarrow> (st', ctx')))"

definition finishStage :: "Host \<Rightarrow> Hooks option \<Rightarrow> UnitStage \<times> ExecutionContext \<Rightarrow> UnitStage \<times> ExecutionContext" where
  "finishStage host cb x = runOn host cb (runOn host cb (runOn host cb x))"

definition afterExecute ::
  "Host \<Rightarrow> Hooks option \<Rightarrow> Tool \<Rightarrow> ToolCall \<Rightarrow> js_exn + jsval \<Rightarrow> ExecutionContext \<Rightarrow> Message \<times> ExecutionContext" where
  "afterExecute host cb tool toolCall outcome ctx =
     (case outcome of
        Inl e \<Rightarrow> (errorResult toolCall e, ctx)
      | Inr result \<Rightarrow>
          (case callHook cb afterToolUse tool ctx result of
             (Inl e, ctx') \<Rightarrow> (errorResult toolCall e, ctx')
           | (Inr result', ctx') \<Rightarrow>
               ((case resultMessage host toolCall result' of Inr m \<Rightarrow> m | Inl e \<Rightarrow> errorResult toolCall e), ctx')))"

text \<open>
  No unit is suspended. And the state of a round that has launched one unit, number \<open>k\<close>,
  while no other unit is suspended: run on from where it is, the unit settles with the
  message \<open>M\<close> and leaves the context \<open>C\<close>; it has assigned \<open>M\<close> if it has settled.
\<close>

definition idle :: "ToolUnit list \<Rightarrow> bool" where
  "idle pool = list_all (\<lambda>u. settled (stage u)) pool"

definition busy ::
  "Host \<Rightarrow> Hooks option \<Rightarrow> nat \<Rightarrow> Message \<Rightarrow> ExecutionContext \<Rightarrow> RoundVars \<times> ExecutionContext \<times> ToolUnit list \<Rightarrow> bool" where
  "busy host cb k M C s =
     (case s of (v, ctx, pool) \<Rightarrow>
        length pool = Suc k \<and> idle (take k pool) \<and> current (pool ! k) \<and>
        finishStage host cb (stage (pool ! k), ctx) = (Settled M, C) \<and>
        (settled (stage (pool ! k)) \<longrightarrow> toolResultMessage v = Some M) \<and>
        toolExecutionPromise v = Some k \<and> hasToolUse v)"

subsection \<open>Example runs\<close>

text \<open>
  A host for the examples. Its \<open>JSON.parse\<close> agrees with the real one on the texts that the
  examples parse and raises on every other text (the examples give it no other text that
  the real one accepts); its string conversions are constant; its \<open>trim\<close> removes the ASCII
  white space, which is all the white space that the texts of the examples hold.
\<close>

definition example_parse :: "jsval \<Rightarrow> js_exn + jsval" where
  "example_parse v =
     (if v = JStr ''{}'' then Inr (JObj [])
      else if v = JStr ''[1,2]'' then Inr (JArr [JNum 1, JNum 2])
      else if v = JStr ''42'' then Inr (JNum 42)
      else if v = JStr ''5'' then Inr (JNum 5)
      else if v = JStr ''{\"key\":\"x\",\"value\":\"42\"}''
        then Inr (JObj [(''key'', JStr ''x''), (''value'', JStr ''42'')])
      else if v = JStr ''{\"key\":\"__action_output\",\"value\":\"5\"}''
        then Inr (JObj [(''key'', JStr ''__action_output''), (''value'', JStr ''5'')])
      else if v = JStr ''{\"value\":42}'' then Inr (JObj [(''value'', JNum 42)])
      else Inl (SyntaxError ''Unexpected token''))"

definition example_trim :: "string \<Rightarrow> string" where
  "example_trim s =
     rev (dropWhile (\<lambda>c. c \<in> set [CHR 0x09, CHR 0x0A, CHR 0x0B, CHR 0x0C, CHR 0x0D, CHR 0x20])
       (rev (dropWhile (\<lambda>c. c \<in> set [CHR 0x09, CHR 0x0A, CHR 0x0B, CHR 0x0C, CHR 0x0D, CHR 0x20]) s)))"

definition example_host :: Host where
  "example_host =
     \<lparr>JSON_parse = example_parse,
      JSON_stringify = (\<lambda>v. JStr ''(json)''),
      JSON_stringify_indent = (\<lambda>v. JStr ''(json)''),
      ToString = (\<lambda>v. ''(string)''),
      String_trim = example_trim\<rparr>"

definition emptyContext :: ExecutionContext where
  "emptyContext = \<lparr>variables = [], ctx_skip = False, ctx_abort = False\<rparr>"

definition noCaller :: Caller where
  "noCaller = \<lparr>context_tools = None, callback = None\<rparr>"

text \<open>
  A vendor stream with one tool-use block (its arguments sent as one fragment), one with
  two tool-use blocks, and one with one text block. A scripted provider answers request \<open>n\<close>
  with stream \<open>n\<close> of its script and with the text \<open>done\<close> once the script is used up.
\<close>

definition toolUseStream :: "string \<Rightarrow> string \<Rightarrow> string \<Rightarrow> jsval \<Rightarrow> VendorStream" where
  "toolUseStream i n json parsed =
     \<lparr>events = [OtherEvent, ContentBlockStart (StartToolUse i n), ContentBlockDelta (InputJsonDelta json),
                ContentBlockStop, OtherEvent],
      finalMessage = Inr \<lparr>message_content = [ToolUseBlock i n parsed], message_stop_reason = JStr ''tool_use''\<rparr>\<rparr>"

definition twoToolUseStream :: "string \<Rightarrow> string \<Rightarrow> string \<Rightarrow> string \<Rightarrow> VendorStream" where
  "twoToolUseStream i n i' n' =
     \<lparr>events = [OtherEvent,
                ContentBlockStart (StartToolUse i n), ContentBlockDelta (InputJsonDelta ''{}''), ContentBlockStop,
                ContentBlockStart (StartToolUse i' n'), ContentBlockDelta (InputJsonDelta ''{}''), ContentBlockStop,
                OtherEvent],
      finalMessage = Inr \<lparr>message_content = [ToolUseBlock i n (JObj []), ToolUseBlock i' n' (JObj [])],
                           message_stop_reason = JStr ''tool_use''\<rparr>\<rparr>"

definition textStream :: "string \<Rightarrow> VendorStream" where
  "textStream t =
     \<lparr>events = [OtherEvent, ContentBlockStart StartText, ContentBlockDelta (TextDelta t), ContentBlockStop, OtherEvent],
      finalMessage = Inr \<lparr>message_content = [TextBlock t], message_stop_reason = JStr ''end_turn''\<rparr>\<rparr>"

definition scriptedProvider :: "VendorStream list \<Rightarrow> ClaudeProvider" where
  "scriptedProvider script =
     \<lparr>client = (\<lambda>n req. if n < length script then Inr (script ! n) else Inr (textStream ''done'')),
      defaultModel = ''claude-3-5-sonnet-20241022''\<rparr>"

definition exampleAction :: "Tool list \<Rightarrow> VendorStream list \<Rightarrow> ActionImpl" where
  "exampleAction declared script =
     new_ActionImpl example_host ''demo'' ''a demonstration'' declared (scriptedProvider script) None None"

definition example_messages :: "Message list" where
  "example_messages = [\<lparr>role = System, content = Plain ''s''\<rparr>, \<lparr>role = User, content = Plain ''u''\<rparr>]"

text \<open>
  The schedule that resumes a unit only where the round waits for it, and a state of the
  loop before its first round, with a schedule to follow.
\<close>

definition lazily :: Schedule where
  "lazily = []"

definition example_state :: "Schedule \<Rightarrow> LoopState" where
  "example_state schedule =
     \<lparr>roundCount = 0, lastResponse = None, loop_messages = example_messages, loop_context = emptyContext,
      loop_schedule = schedule, loop_units = [], rounds = 0, failure = None\<rparr>"

text \<open>The scripts: what the model answers in each example.\<close>

definition writesX :: "VendorStream list" where
  "writesX =
     [toolUseStream ''tu1'' ''write_context'' ''{\"key\":\"x\",\"value\":\"42\"}''
        (JObj [(''key'', JStr ''x''), (''value'', JStr ''42'')])]"

definition writesOutputKey :: "VendorStream list" where
  "writesOutputKey =
     [toolUseStream ''tu1'' ''write_context'' ''{\"key\":\"__action_output\",\"value\":\"5\"}''
        (JObj [(''key'', JStr ''__action_output''), (''value'', JStr ''5'')])]"

definition returnsInRoundOne :: "VendorStream list" where
  "returnsInRoundOne =
     [toolUseStream ''tu1'' ''return_output'' ''{\"value\":42}'' (JObj [(''value'', JNum 42)])]"

definition callsUnknownTool :: "VendorStream list" where
  "callsUnknownTool =
     [toolUseStream ''tu1'' ''nope'' ''{}'' (JObj []),
      toolUseStream ''tu2'' ''return_output'' ''{\"value\":42}'' (JObj [(''value'', JNum 42)])]"

definition callsBoom :: "VendorStream list" where
  "callsBoom = [toolUseStream ''tu1'' ''boom'' ''{}'' (JObj [])]"

text \<open>
  Two tools, and a round in which the model calls both in one response. The runtime resumes
  both units before the final message of the stream arrives, the second before the first
  (the first tool takes longer).
\<close>

definition namedTool :: "string \<Rightarrow> Tool" where
  "namedTool n =
     \<lparr>name = n, description = ''returns its name'', input_schema = JObj [],
      execute = (\<lambda>ctx params. (Inr (JObj [(''by'', JStr n)]), ctx))\<rparr>"



text \<open>
  A tool that raises \<open>boom\<close>, the call of it, and the tool-result message of the error. In
  the schedule \<open>firstUnitEarly\<close> the runtime resumes the first unit before the provider makes its
  third handler call: in a stream with one tool call, before the final message arrives; in a
  stream with two, before the second call.
\<close>

definition boomTool :: Tool where
  "boomTool =
     \<lparr>name = ''boom'', description = ''always raises'', input_schema = JObj [],
      execute = (\<lambda>ctx params. (Inl (JsError ''boom''), ctx))\<rparr>"

definition boomCall :: ToolCall where
  "boomCall = \<lparr>tc_id = ''tu1'', tc_name = ''boom'', tc_input = JObj []\<rparr>"

definition boomResponse :: LLMResponse where
  "boomResponse =
     \<lparr>textContent = None, response_content = [ToolUseBlock ''tu1'' ''boom'' (JObj [])],
      toolCalls = [boomCall], stop_reason = JStr ''tool_use''\<rparr>"

definition boomCalls :: "HandlerCall list" where
  "boomCalls = [OnStart, OnToolUse boomCall, OnComplete boomResponse]"

definition boomError :: Message where
  "boomError =
     \<lparr>role = User, content = Blocks [ToolResultBlock ''tu1'' (ContentArray [SubText (JStr ''Error: boom'')]) True]\<rparr>"

definition firstUnitEarly :: Schedule where
  "firstUnitEarly = [[], [], [0]]"

text \<open>
  A \<open>beforeToolUse\<close> hook that sets \<open>__abort\<close> and raises, and an \<open>afterToolUse\<close> hook that
  raises.
\<close>

definition abortingHooks :: Hooks where
  "abortingHooks =
     \<lparr>beforeToolUse = Some (\<lambda>tool ctx v. (Inl (JsError ''cancelled''), ctx\<lparr>ctx_abort := True\<rparr>)),
      afterToolUse = None\<rparr>"

definition failingAfterHooks :: Hooks where
  "failingAfterHooks =
     \<lparr>beforeToolUse = None,
      afterToolUse = Some (\<lambda>tool ctx v. (Inl (JsError ''rejected''), ctx))\<rparr>"

text \<open>
  A response whose first tool-use block carries a text that is not JSON (it was cut short),
  followed by a well-formed block.
\<close>

definition cutShortStream :: VendorStream where
  "cutShortStream =
     \<lparr>events = [ContentBlockStart (StartToolUse ''tu1'' ''write_context''),
                ContentBlockDelta (InputJsonDelta ''{\"key\":''), ContentBlockStop,
                ContentBlockStart (StartToolUse ''tu2'' ''return_output''),
                ContentBlockDelta (InputJsonDelta ''{\"value\":42}''), ContentBlockStop],
      finalMessage = Inr \<lparr>message_content = [], message_stop_reason = JStr ''max_tokens''\<rparr>\<rparr>"

text \<open>
  A response with a text block and a tool-use block whose arguments arrive in two
  fragments, with other events in between, and one with a tool-use block without arguments.
\<close>

definition fragmentsStream :: VendorStream where
  "fragmentsStream =
     \<lparr>events = [OtherEvent, ContentBlockStart StartText, ContentBlockDelta (TextDelta ''hi''), ContentBlockStop,
                ContentBlockStart (StartToolUse ''id1'' ''t''), ContentBlockDelta (InputJsonDelta ''[1,''),
                OtherEvent, ContentBlockDelta (InputJsonDelta ''2]''), ContentBlockStop,
                ContentBlockStart (StartToolUse ''id2'' ''u''), ContentBlockStop],
      finalMessage = Inl (JsError ''connection lost'')\<rparr>"

text \<open>
  A tool whose result is an image and no text, as a screenshot tool returns it, and a model
  that calls it in each of four rounds.
\<close>

definition screenshotTool :: Tool where
  "screenshotTool =
     \<lparr>name = ''screenshot'', description = ''returns an image and no text'', input_schema = JObj [],
      execute = (\<lambda>ctx params. (Inr (JObj [(''image'', JObj [(''type'', JStr ''base64'')])]), ctx))\<rparr>"

definition callsScreenshot :: "VendorStream list" where
  "callsScreenshot = replicate 4 (toolUseStream ''tu1'' ''screenshot'' ''{}'' (JObj []))"

text \<open>A tool that the context supplies under the name of the write-context tool.\<close>

definition contextWriteTool :: Tool where
  "contextWriteTool =
     \<lparr>name = ''write_context'', description = ''supplied by the context'', input_schema = JNull,
      execute = (\<lambda>ctx params. (Inr JNull, ctx))\<rparr>"

section \<open>History trimming: what the loops compute\<close>

lemma kLoop_take: "n \<le> length tc \<Longrightarrow> kLoop n tc = filter (\<lambda>s. \<not> isImage s) (take n tc) @ drop n tc"
proof (induction n arbitrary: tc)
  case 0 then show ?case by simp
next
  case (Suc k)
  then have k: "k < length tc" by simp
  show ?case
  proof (cases "isImage (tc ! k)")
    case True
    have len: "k \<le> length (splice1 k tc)" using k by (simp add: splice1_def)
    have "kLoop (Suc k) tc = kLoop k (splice1 k tc)" using True by simp
    also have "\<dots> = filter (\<lambda>s. \<not> isImage s) (take k (splice1 k tc)) @ drop k (splice1 k tc)"
      using Suc.IH[OF len] .
    also have "take k (splice1 k tc) = take k tc" using k by (simp add: splice1_def)
    also have "drop k (splice1 k tc) = drop (Suc k) tc" using k by (simp add: splice1_def)
    finally show ?thesis using True k by (simp add: take_Suc_conv_app_nth)
  next
    case False
    have "kLoop (Suc k) tc = kLoop k tc" using False by simp
    also have "\<dots> = filter (\<lambda>s. \<not> isImage s) (take k tc) @ drop k tc"
      using Suc.IH[of tc] k by simp
    finally show ?thesis using False k by (simp add: take_Suc_conv_app_nth Cons_nth_drop_Suc)
  qed
qed

lemma kLoop_filter: "kLoop (length tc) tc = filter (\<lambda>s. \<not> isImage s) tc"
  by (simp add: kLoop_take)

lemma handleBlock_cases:
  "handleBlock b = (if emptyArrayResult b then Inl (readOfUndefined ''type'') else Inr (withoutImages b))"
  by (cases b rule: handleBlock.cases) (simp_all add: kLoop_filter)

lemma jLoop_cases:
  "jLoop bs = (if list_ex emptyArrayResult bs then Inl (readOfUndefined ''type'') else Inr (map withoutImages bs))"
  by (induction bs) (simp_all add: handleBlock_cases)

lemma olderAt_Suc_other:
  "role (ms ! i) \<noteq> User \<Longrightarrow> olderAt (Suc i) lu ms idx = olderAt i lu ms idx"
proof -
  assume r: "role (ms ! i) \<noteq> User"
  have a: "idx < Suc i \<and> role (ms ! idx) = User \<longleftrightarrow> idx < i \<and> role (ms ! idx) = User"
    using r less_Suc_eq by auto
  have b: "(\<exists>j. idx < j \<and> j < Suc i \<and> role (ms ! j) = User) \<longleftrightarrow> (\<exists>j. idx < j \<and> j < i \<and> role (ms ! j) = User)"
    using r less_Suc_eq by auto
  show ?thesis unfolding olderAt_def using a b by blast
qed

lemma olderAt_Suc_first:
  "role (ms ! i) = User \<Longrightarrow> olderAt (Suc i) True ms idx = (idx < i \<and> role (ms ! idx) = User)"
proof -
  assume r: "role (ms ! i) = User"
  have b: "idx < Suc i \<Longrightarrow> (\<exists>j. idx < j \<and> j < Suc i \<and> role (ms ! j) = User) \<longleftrightarrow> idx < i"
    using r less_Suc_eq by auto
  show ?thesis unfolding olderAt_def using b by auto
qed

lemma olderAt_Suc_next:
  "role (ms ! i) = User \<Longrightarrow> olderAt (Suc i) False ms idx = (idx \<le> i \<and> role (ms ! idx) = User)"
  unfolding olderAt_def by auto

lemma olderAt_False: "olderAt i False ms idx = (idx < i \<and> role (ms ! idx) = User)"
  unfolding olderAt_def by auto

lemma trimOut_cong:
  assumes "length ms2 = length ms"
    and "\<And>idx. idx < length ms \<Longrightarrow>
          (if olderAt n2 lu2 ms2 idx then trimmedMessage (ms2 ! idx) else ms2 ! idx)
        = (if olderAt n lu ms idx then trimmedMessage (ms ! idx) else ms ! idx)"
  shows "trimOut n2 lu2 ms2 = trimOut n lu ms"
proof -
  have "map (\<lambda>idx. if olderAt n2 lu2 ms2 idx then trimmedMessage (ms2 ! idx) else ms2 ! idx) [0..<length ms]
      = map (\<lambda>idx. if olderAt n lu ms idx then trimmedMessage (ms ! idx) else ms ! idx) [0..<length ms]"
    by (rule map_cong[OF refl]) (use assms(2) in simp)
  then show ?thesis unfolding trimOut_def assms(1) .
qed

lemma iLoop_char:
  "n \<le> length ms \<Longrightarrow>
   iLoop n lu ms = (if trimFails n lu ms then Inl (readOfUndefined ''type'') else Inr (trimOut n lu ms))"
proof (induction n arbitrary: lu ms)
  case 0
  then show ?case by (simp add: olderAt_def map_nth trimFails_def trimOut_def)
next
  case (Suc i)
  then have i: "i < length ms" and i': "i \<le> length ms" by simp_all
  show ?case
  proof (cases "role (ms ! i) = User")
    case False
    have "iLoop (Suc i) lu ms = iLoop i lu ms" using False by simp
    moreover have "trimFails (Suc i) lu ms = trimFails i lu ms"
      unfolding trimFails_def using False by (simp add: olderAt_Suc_other)
    moreover have "trimOut (Suc i) lu ms = trimOut i lu ms"
      unfolding trimOut_def using False by (simp add: olderAt_Suc_other)
    ultimately show ?thesis using Suc.IH[OF i', of lu] by simp
  next
    case U: True
    show ?thesis
    proof (cases lu)
      case True
      have "iLoop (Suc i) lu ms = iLoop i False ms" using True U by simp
      moreover have "trimFails (Suc i) lu ms = trimFails i False ms"
        unfolding trimFails_def using True U by (simp add: olderAt_Suc_first olderAt_False)
      moreover have "trimOut (Suc i) lu ms = trimOut i False ms"
        unfolding trimOut_def using True U by (simp add: olderAt_Suc_first olderAt_False)
      ultimately show ?thesis using Suc.IH[OF i', of False] by simp
    next
      case F: False
      have older: "\<And>idx. olderAt (Suc i) lu ms idx = (idx \<le> i \<and> role (ms ! idx) = User)"
        using U F by (simp add: olderAt_Suc_next)
      show ?thesis
      proof (cases "content (ms ! i)")
        case (Plain s)
        have same: "trimmedMessage (ms ! i) = ms ! i" "\<not> hasEmptyArrayResult (ms ! i)"
          using Plain by (simp_all add: trimmedMessage_def hasEmptyArrayResult_def)
        have "iLoop (Suc i) lu ms = iLoop i False ms" using U F Plain by simp
        moreover have "trimFails (Suc i) lu ms = trimFails i False ms"
          unfolding trimFails_def older olderAt_False using same(2)
          by (auto simp: le_eq_less_or_eq)
        moreover have "trimOut (Suc i) lu ms = trimOut i False ms"
        proof (rule trimOut_cong)
          fix idx assume "idx < length ms"
          show "(if olderAt (Suc i) lu ms idx then trimmedMessage (ms ! idx) else ms ! idx)
              = (if olderAt i False ms idx then trimmedMessage (ms ! idx) else ms ! idx)"
            unfolding older olderAt_False using same(1) by (cases "idx = i") auto
        qed simp
        ultimately show ?thesis using Suc.IH[OF i', of False] by simp
      next
        case (Blocks bs)
        show ?thesis
        proof (cases "list_ex emptyArrayResult bs")
          case True
          then have "hasEmptyArrayResult (ms ! i)" using Blocks by (simp add: hasEmptyArrayResult_def)
          then have "trimFails (Suc i) lu ms"
            unfolding trimFails_def older using U by blast
          moreover have "iLoop (Suc i) lu ms = Inl (readOfUndefined ''type'')"
            using U F Blocks True by (simp add: jLoop_cases)
          ultimately show ?thesis by simp
        next
          case ok: False
          let ?m2 = "(ms ! i)\<lparr>content := Blocks (map withoutImages bs)\<rparr>"
          let ?ms2 = "ms[i := ?m2]"
          have m2: "?m2 = trimmedMessage (ms ! i)" using Blocks by (simp add: trimmedMessage_def)
          have notbad: "\<not> hasEmptyArrayResult (ms ! i)" using Blocks ok by (simp add: hasEmptyArrayResult_def)
          have len2: "i \<le> length ?ms2" using i by simp
          have step: "iLoop (Suc i) lu ms = iLoop i False ?ms2"
            using U F Blocks ok by (simp add: jLoop_cases Let_def)
          have below: "\<And>idx. idx < i \<Longrightarrow> ?ms2 ! idx = ms ! idx" by simp
          have at: "?ms2 ! i = trimmedMessage (ms ! i)" using i m2 by simp
          have above: "\<And>idx. i < idx \<Longrightarrow> ?ms2 ! idx = ms ! idx" by simp
          have "trimFails i False ?ms2 = trimFails (Suc i) lu ms"
          proof -
            have "trimFails i False ?ms2 = (\<exists>idx. (idx < i \<and> role (ms ! idx) = User) \<and> hasEmptyArrayResult (ms ! idx))"
              unfolding trimFails_def olderAt_False using below by auto
            also have "\<dots> = (\<exists>idx. (idx \<le> i \<and> role (ms ! idx) = User) \<and> hasEmptyArrayResult (ms ! idx))"
              using notbad by (auto simp: le_eq_less_or_eq)
            finally show ?thesis unfolding trimFails_def older .
          qed
          moreover have "trimOut i False ?ms2 = trimOut (Suc i) lu ms"
          proof (rule trimOut_cong)
            fix idx assume "idx < length ms"
            consider "idx < i" | "idx = i" | "i < idx" by linarith
            then show "(if olderAt i False ?ms2 idx then trimmedMessage (?ms2 ! idx) else ?ms2 ! idx)
                = (if olderAt (Suc i) lu ms idx then trimmedMessage (ms ! idx) else ms ! idx)"
            proof cases
              case 1 then show ?thesis unfolding older olderAt_False using below[OF 1] by simp
            next
              case 2 then show ?thesis unfolding older olderAt_False using at U by simp
            next
              case 3 then show ?thesis unfolding older olderAt_False using above[OF 3] by simp
            qed
          qed simp
          ultimately show ?thesis
            unfolding step using Suc.IH[OF len2, of False] by simp
        qed
      qed
    qed
  qed
qed

lemma olderAt_length: "olderAt (length ms) True ms idx = olderUser ms idx"
proof -
  have "list_ex (\<lambda>m. role m = User) (drop (Suc idx) ms) = (\<exists>j. idx < j \<and> j < length ms \<and> role (ms ! j) = User)"
  proof
    assume "list_ex (\<lambda>m. role m = User) (drop (Suc idx) ms)"
    then obtain k where k: "k < length (drop (Suc idx) ms)" "role (drop (Suc idx) ms ! k) = User"
      by (auto simp: list_ex_iff in_set_conv_nth)
    then have "idx < Suc idx + k \<and> Suc idx + k < length ms \<and> role (ms ! (Suc idx + k)) = User"
      by (simp add: less_diff_conv add.commute)
    then show "\<exists>j. idx < j \<and> j < length ms \<and> role (ms ! j) = User" by blast
  next
    assume "\<exists>j. idx < j \<and> j < length ms \<and> role (ms ! j) = User"
    then obtain j where j: "idx < j" "j < length ms" "role (ms ! j) = User" by blast
    then have "drop (Suc idx) ms ! (j - Suc idx) = ms ! j" "j - Suc idx < length (drop (Suc idx) ms)"
      by simp_all
    then have "ms ! j \<in> set (drop (Suc idx) ms)"
      using nth_mem by metis
    then show "list_ex (\<lambda>m. role m = User) (drop (Suc idx) ms)"
      using j(3) by (auto simp: list_ex_iff)
  qed
  then show ?thesis unfolding olderAt_def olderUser_def by simp
qed

lemma handleHistoryImageMessages_char:
  "handleHistoryImageMessages ms =
     (if \<exists>i. olderUser ms i \<and> hasEmptyArrayResult (ms ! i) then Inl (readOfUndefined ''type'')
      else Inr (map (\<lambda>i. if olderUser ms i then trimmedMessage (ms ! i) else ms ! i) [0..<length ms]))"
  unfolding handleHistoryImageMessages_def
  using iLoop_char[of "length ms" ms True]
  by (simp add: trimFails_def trimOut_def olderAt_length)

lemma imageFree_withoutImages: "imageFreeBlock (withoutImages b)"
  by (cases b rule: withoutImages.cases) (simp_all add: list_all_iff)

lemma imageFree_trimmedMessage: "imageFree (trimmedMessage m)"
  by (cases "content m") (simp_all add: imageFree_def trimmedMessage_def list_all_iff imageFree_withoutImages)

text \<open>
  C4. When \<open>handleHistoryImageMessages\<close> completes, the history keeps its length; every user
  message other than the most recent user message is the message it was with every image
  sub-block removed from the \<open>tool_result\<close> blocks that hold a sequence (the text sub-blocks
  stay, in order), so that no image is left in it; and every other message, the most recent
  user message among them, is unchanged.
\<close>

theorem handleHistoryImageMessages_strips_older:
  assumes "handleHistoryImageMessages messages = Inr messages'"
  shows "length messages' = length messages \<and>
         (\<forall>i<length messages.
            (olderUser messages i \<longrightarrow>
               messages' ! i = trimmedMessage (messages ! i) \<and> imageFree (messages' ! i)) \<and>
            (\<not> olderUser messages i \<longrightarrow> messages' ! i = messages ! i))"
proof -
  have eq: "messages' = map (\<lambda>i. if olderUser messages i then trimmedMessage (messages ! i) else messages ! i) [0..<length messages]"
    using assms unfolding handleHistoryImageMessages_char by (simp split: if_splits)
  have len: "length messages' = length messages" by (subst eq) simp
  have nth: "\<And>i. i < length messages \<Longrightarrow>
      messages' ! i = (if olderUser messages i then trimmedMessage (messages ! i) else messages ! i)"
    by (subst eq) simp
  show ?thesis using len nth by (simp add: imageFree_trimmedMessage)
qed

lemma example_history_trimmed: "handleHistoryImageMessages example_history = Inr example_trimmed"
  by (simp add: example_history_def example_trimmed_def handleHistoryImageMessages_def splice1_def)

theorem handleHistoryImageMessages_strips_older_witness:
  "handleHistoryImageMessages example_history = Inr example_trimmed \<and>
   length example_trimmed = length example_history \<and>
   olderUser example_history 1 \<and>
   example_trimmed ! 1 = trimmedMessage (example_history ! 1) \<and>
   imageFree (example_trimmed ! 1) \<and>
   \<not> olderUser example_history 3 \<and>
   example_trimmed ! 3 = example_history ! 3"
proof -
  have older: "olderUser example_history 1" "\<not> olderUser example_history 3"
    by (simp_all add: olderUser_def example_history_def)
  have bound: "(1::nat) < length example_history" "(3::nat) < length example_history"
    by (simp_all add: example_history_def)
  show ?thesis
    using handleHistoryImageMessages_strips_older[OF example_history_trimmed] older bound
      example_history_trimmed
    by blast
qed

text \<open>
  C10. \<open>handleHistoryImageMessages\<close> raises the TypeError of reading \<open>type\<close> from \<open>undefined\<close>
  exactly when some user message other than the most recent user message holds a
  \<open>tool_result\<close> block whose content is the empty array, and it completes exactly when there is
  no such block.
\<close>

theorem handleHistoryImageMessages_throws:
  "(handleHistoryImageMessages messages = Inl (readOfUndefined ''type''))
     = (\<exists>i. olderUser messages i \<and> hasEmptyArrayResult (messages ! i)) \<and>
   (\<exists>messages'. handleHistoryImageMessages messages = Inr messages')
     = (\<not> (\<exists>i. olderUser messages i \<and> hasEmptyArrayResult (messages ! i)))"
  unfolding handleHistoryImageMessages_char by simp

lemma image_only_history_trimmed: "handleHistoryImageMessages image_only_history = Inr emptied_history"
  by code_simp

lemma emptied_history_older: "olderUser emptied_history 1 \<and> hasEmptyArrayResult (emptied_history ! 1)"
  by code_simp

text \<open>
  Trimming empties the array of an older tool result that holds only images, and the next
  trimming of that history raises.
\<close>

theorem handleHistoryImageMessages_throws_witness:
  "handleHistoryImageMessages image_only_history = Inr emptied_history \<and>
   handleHistoryImageMessages emptied_history = Inl (readOfUndefined ''type'')"
proof -
  have "\<exists>i. olderUser emptied_history i \<and> hasEmptyArrayResult (emptied_history ! i)"
    using emptied_history_older by blast
  then show ?thesis
    using handleHistoryImageMessages_throws[of emptied_history] image_only_history_trimmed by blast
qed

text \<open>
  The same inside \<open>execute\<close>: the tool returns an image and no text in every round, the third
  round empties the array of the first result, and the trimming of the fourth round raises,
  so \<open>execute\<close> fails with the TypeError.
\<close>

lemma image_only_results_fail_execute:
  "(case ActionImpl_execute example_host (exampleAction [screenshotTool] callsScreenshot) lazily JUndefined noCaller
           emptyContext JUndefined of
      (Inl e, c) \<Rightarrow> e = readOfUndefined ''type''
    | (Inr v, c) \<Rightarrow> False) \<and>
   rounds (runLoop example_host (exampleAction [screenshotTool] callsScreenshot) lazily JUndefined noCaller
             emptyContext JUndefined) = 4"
  by code_simp

section \<open>The stream normalizer: accumulation of tool arguments\<close>

lemma generateStream_closing:
  assumes "systemOf messages = Inr system"
    and "client provider n (streamRequest provider system messages params) = Inr stream"
  shows "generateStream host provider n messages params
         = Inr (OnStart # closing host (events stream) (finalMessage stream))"
  using assms
  by (simp add: generateStream_def streamRequest_def closing_def split: prod.splits option.splits sum.splits)

lemma forAwait_append:
  assumes "forAwait host cur pre = (before, None)"
  shows "\<exists>cur'. forAwait host cur (pre @ es)
               = (before @ fst (forAwait host cur' es), snd (forAwait host cur' es))"
  using assms
proof (induction pre arbitrary: cur before)
  case Nil
  then show ?case by auto
next
  case (Cons event pre)
  show ?case
  proof (cases "switch host event cur")
    case (Inl e)
    then show ?thesis using Cons.prems by simp
  next
    case (Inr r)
    obtain calls cur1 where r: "r = (calls, cur1)" by (cases r)
    obtain calls' thrown where f: "forAwait host cur1 pre = (calls', thrown)" by (cases "forAwait host cur1 pre")
    have t: "thrown = None" and b: "before = calls @ calls'" using Cons.prems Inr r f by simp_all
    obtain cur' where "forAwait host cur1 (pre @ es)
               = (calls' @ fst (forAwait host cur' es), snd (forAwait host cur' es))"
      using Cons.IH[OF f[unfolded t]] by blast
    then show ?thesis using Inr r b by (auto split: prod.splits)
  qed
qed

lemma forAwait_inside:
  assumes "list_all insideBlock body"
  shows "forAwait host (Some cur) (body @ rest) =
     (case forAwait host (Some (cur\<lparr>accumulatedJson := accumulatedJson cur @ jsonFragments body\<rparr>)) rest of
        (calls, thrown) \<Rightarrow> (contentCalls body @ calls, thrown))"
  using assms
proof (induction body arbitrary: cur)
  case Nil
  then show ?case by (simp split: prod.splits)
next
  case (Cons event body)
  have ih: "\<And>cur. forAwait host (Some cur) (body @ rest) =
     (case forAwait host (Some (cur\<lparr>accumulatedJson := accumulatedJson cur @ jsonFragments body\<rparr>)) rest of
        (calls, thrown) \<Rightarrow> (contentCalls body @ calls, thrown))"
    using Cons by simp
  show ?case
  proof (cases event)
    case (ContentBlockStart b)
    then show ?thesis using Cons.prems ih by (cases b) (simp_all split: prod.splits)
  next
    case (ContentBlockDelta d)
    then show ?thesis using ih by (cases d) (simp_all split: prod.splits)
  next
    case ContentBlockStop
    then show ?thesis using Cons.prems by simp
  next
    case OtherEvent
    then show ?thesis using ih by (simp split: prod.splits)
  qed
qed

lemma contentCalls_no_tool_use: "filter isOnToolUse (contentCalls body) = []"
  by (induction body rule: contentCalls.induct) simp_all

text \<open>
  C7. Take a call of \<open>generateStream\<close> that has opened its stream, and a tool-use block of
  that stream which the iteration reaches: no event before the block has raised. Whatever
  the accumulator held before, the partial-JSON fragments of the block are concatenated in
  arrival order, and at the block-stop event \<open>JSON.parse\<close> is applied to the accumulated text,
  or to \<open>{}\<close> when that text is empty. When it returns a value, \<open>onToolUse\<close> is called with
  the id and the name of the block and that value, after the \<open>onContent\<close> calls of the events
  inside the block, none of which is an \<open>onToolUse\<close> call, and \<open>generateStream\<close> goes on with the
  rest of the stream and the accumulator closed. When it raises, there is no \<open>onToolUse\<close> call
  for the block: the exception is passed to \<open>onError\<close>, which is the last handler call, so the
  rest of the stream is not processed.
\<close>

theorem generateStream_tool_use_block:
  assumes sys: "systemOf messages = Inr system"
    and opened: "client provider n (streamRequest provider system messages params) = Inr stream"
    and block: "events stream = pre @ ContentBlockStart (StartToolUse i nm) # body @ ContentBlockStop # rest"
    and reached: "forAwait host None pre = (before, None)"
    and body: "list_all insideBlock body"
  shows "generateStream host provider n messages params =
           (case JSON_parse host (JStr (if jsonFragments body = [] then ''{}'' else jsonFragments body)) of
              Inr parsed \<Rightarrow>
                Inr (OnStart # before @ contentCalls body
                     @ OnToolUse \<lparr>tc_id = i, tc_name = nm, tc_input = parsed\<rparr>
                     # closing host rest (finalMessage stream))
            | Inl e \<Rightarrow> Inr (OnStart # before @ contentCalls body @ [OnError e])) \<and>
         filter isOnToolUse (contentCalls body) = []"
proof -
  let ?text = "if jsonFragments body = [] then ''{}'' else jsonFragments body"
  let ?cur = "\<lparr>pt_id = i, pt_name = nm, accumulatedJson = jsonFragments body\<rparr>"
  let ?block = "ContentBlockStart (StartToolUse i nm) # body @ ContentBlockStop # rest"
  have stop: "switch host ContentBlockStop (Some ?cur)
              = (case JSON_parse host (JStr ?text) of
                   Inl e \<Rightarrow> Inl e
                 | Inr parsed \<Rightarrow> Inr ([OnToolUse \<lparr>tc_id = i, tc_name = nm, tc_input = parsed\<rparr>], None))"
    by (cases "jsonFragments body = []") (simp_all split: sum.splits)
  have after: "forAwait host (Some ?cur) (ContentBlockStop # rest)
              = (case JSON_parse host (JStr ?text) of
                   Inl e \<Rightarrow> ([], Some e)
                 | Inr parsed \<Rightarrow>
                     (OnToolUse \<lparr>tc_id = i, tc_name = nm, tc_input = parsed\<rparr> # fst (forAwait host None rest),
                      snd (forAwait host None rest)))"
    unfolding forAwait.simps stop by (simp split: sum.splits prod.splits)
  have blk: "forAwait host cur' ?block
             = (case JSON_parse host (JStr ?text) of
                   Inl e \<Rightarrow> (contentCalls body, Some e)
                 | Inr parsed \<Rightarrow>
                     (contentCalls body @ OnToolUse \<lparr>tc_id = i, tc_name = nm, tc_input = parsed\<rparr>
                        # fst (forAwait host None rest),
                      snd (forAwait host None rest)))" for cur'
  proof -
    have "forAwait host cur' ?block
          = forAwait host (Some \<lparr>pt_id = i, pt_name = nm, accumulatedJson = []\<rparr>) (body @ ContentBlockStop # rest)"
      by (simp split: prod.splits)
    also have "\<dots> = (case forAwait host (Some ?cur) (ContentBlockStop # rest) of
                      (calls, thrown) \<Rightarrow> (contentCalls body @ calls, thrown))"
      by (simp only: forAwait_inside[OF body]) simp
    also have "\<dots> = (case JSON_parse host (JStr ?text) of
                   Inl e \<Rightarrow> (contentCalls body, Some e)
                 | Inr parsed \<Rightarrow>
                     (contentCalls body @ OnToolUse \<lparr>tc_id = i, tc_name = nm, tc_input = parsed\<rparr>
                        # fst (forAwait host None rest),
                      snd (forAwait host None rest)))"
      unfolding after by (simp split: sum.splits)
    finally show ?thesis .
  qed
  obtain cur' where whole: "forAwait host None (pre @ ?block)
               = (before @ fst (forAwait host cur' ?block), snd (forAwait host cur' ?block))"
    using forAwait_append[OF reached] by blast
  have gen: "generateStream host provider n messages params
         = Inr (OnStart # closing host (pre @ ?block) (finalMessage stream))"
    using generateStream_closing[OF sys opened] block by simp
  have "closing host (pre @ ?block) (finalMessage stream)
        = (case JSON_parse host (JStr ?text) of
              Inr parsed \<Rightarrow>
                before @ contentCalls body
                     @ OnToolUse \<lparr>tc_id = i, tc_name = nm, tc_input = parsed\<rparr>
                     # closing host rest (finalMessage stream)
            | Inl e \<Rightarrow> before @ contentCalls body @ [OnError e])"
    unfolding closing_def whole blk
    by (simp split: sum.splits prod.splits option.splits)
  then show ?thesis unfolding gen using contentCalls_no_tool_use by (simp split: sum.splits)
qed

lemma fragments_sys: "systemOf example_messages = Inr (Some ''s'')"
  by code_simp

lemma fragments_opened:
  "client (scriptedProvider [fragmentsStream]) 0
     (streamRequest (scriptedProvider [fragmentsStream]) (Some ''s'') example_messages emptyParameters)
   = Inr fragmentsStream"
  by (simp add: scriptedProvider_def)

lemma fragments_block:
  "events fragmentsStream
   = [OtherEvent, ContentBlockStart StartText, ContentBlockDelta (TextDelta ''hi''), ContentBlockStop]
     @ ContentBlockStart (StartToolUse ''id1'' ''t'')
     # [ContentBlockDelta (InputJsonDelta ''[1,''), OtherEvent, ContentBlockDelta (InputJsonDelta ''2]'')]
     @ ContentBlockStop # [ContentBlockStart (StartToolUse ''id2'' ''u''), ContentBlockStop]"
  by (simp add: fragmentsStream_def)

lemma fragments_reached:
  "forAwait example_host None
     [OtherEvent, ContentBlockStart StartText, ContentBlockDelta (TextDelta ''hi''), ContentBlockStop]
   = ([OnContent [], OnContent ''hi''], None)"
  by simp

lemma fragments_body:
  "list_all insideBlock [ContentBlockDelta (InputJsonDelta ''[1,''), OtherEvent, ContentBlockDelta (InputJsonDelta ''2]'')]"
  by simp

text \<open>
  A text block, then a block whose arguments \<open>[1,2]\<close> arrive in two fragments with another
  event in between, then a block without arguments, whose input is \<open>{}\<close>.
\<close>

theorem generateStream_tool_use_block_witness:
  "generateStream example_host (scriptedProvider [fragmentsStream]) 0 example_messages emptyParameters
   = Inr [OnStart, OnContent [], OnContent ''hi'',
          OnToolUse \<lparr>tc_id = ''id1'', tc_name = ''t'', tc_input = JArr [JNum 1, JNum 2]\<rparr>,
          OnToolUse \<lparr>tc_id = ''id2'', tc_name = ''u'', tc_input = JObj []\<rparr>,
          OnError (JsError ''connection lost'')]"
proof -
  have p: "JSON_parse example_host (JStr ''[1,2]'') = Inr (JArr [JNum 1, JNum 2])"
          "JSON_parse example_host (JStr ''{}'') = Inr (JObj [])"
    by (simp_all add: example_host_def example_parse_def)
  have rest: "closing example_host [ContentBlockStart (StartToolUse ''id2'' ''u''), ContentBlockStop]
                (finalMessage fragmentsStream)
              = [OnToolUse \<lparr>tc_id = ''id2'', tc_name = ''u'', tc_input = JObj []\<rparr>, OnError (JsError ''connection lost'')]"
    by (simp add: closing_def p fragmentsStream_def)
  show ?thesis
    using generateStream_tool_use_block[OF fragments_sys fragments_opened fragments_block fragments_reached
            fragments_body]
    by (simp add: p rest)
qed

text \<open>
  \<open>onToolUse\<close> is not called for every streamed tool-use block: the arguments of the first
  block were cut short, \<open>JSON.parse\<close> raises on them, and the handler sees \<open>onStart\<close> and \<open>onError\<close>
  only, neither a call for that block nor one for the well-formed block after it.
\<close>

theorem unparsable_tool_use_block_is_dropped:
  "JSON_parse example_host (JStr ''{\"key\":'') = Inl (SyntaxError ''Unexpected token'') \<and>
   generateStream example_host (scriptedProvider [cutShortStream]) 0 example_messages emptyParameters
     = Inr [OnStart, OnError (SyntaxError ''Unexpected token'')]"
  by code_simp

section \<open>The write-context tool\<close>

text \<open>
  C8. Called with an argument object whose \<open>key\<close> is \<open>k\<close> and whose \<open>value\<close> is the string \<open>v\<close>,
  the write-context tool returns \<open>{success: true, key, value}\<close> and leaves the variable store
  mapping \<open>k\<close> to the value that \<open>JSON.parse\<close> returns for \<open>v\<close>, or to the string \<open>v\<close> itself
  when \<open>JSON.parse\<close> raises; every other key keeps its entry.
\<close>

theorem write_context_stores:
  assumes "getProp params ''key'' = Inr k" and "getProp params ''value'' = Inr (JStr v)"
  shows "fst (WriteContextTool_execute host ctx params)
           = Inr (JObj [(''success'', JBool True), (''key'', k), (''value'', JStr v)]) \<and>
         map_of (variables (snd (WriteContextTool_execute host ctx params))) k
           = Some (case JSON_parse host (JStr v) of Inr parsedValue \<Rightarrow> parsedValue | Inl e \<Rightarrow> JStr v) \<and>
         (\<forall>k'. k' \<noteq> k \<longrightarrow>
            map_of (variables (snd (WriteContextTool_execute host ctx params))) k' = map_of (variables ctx) k')"
  using assms by (simp add: WriteContextTool_execute_def update_conv' split: sum.splits)

theorem write_context_stores_witness:
  "map_of (variables (snd (execute (WriteContextTool example_host) emptyContext
      (JObj [(''key'', JStr ''x''), (''value'', JStr ''42'')])))) (JStr ''x'') = Some (JNum 42) \<and>
   map_of (variables (snd (execute (WriteContextTool example_host) emptyContext
      (JObj [(''key'', JStr ''y''), (''value'', JStr ''not-json'')])))) (JStr ''y'') = Some (JStr ''not-json'')"
proof -
  have a: "getProp (JObj [(''key'', JStr ''x''), (''value'', JStr ''42'')]) ''key'' = Inr (JStr ''x'')"
          "getProp (JObj [(''key'', JStr ''x''), (''value'', JStr ''42'')]) ''value'' = Inr (JStr ''42'')"
          "getProp (JObj [(''key'', JStr ''y''), (''value'', JStr ''not-json'')]) ''key'' = Inr (JStr ''y'')"
          "getProp (JObj [(''key'', JStr ''y''), (''value'', JStr ''not-json'')]) ''value'' = Inr (JStr ''not-json'')"
    by simp_all
  have p: "JSON_parse example_host (JStr ''42'') = Inr (JNum 42)"
          "JSON_parse example_host (JStr ''not-json'') = Inl (SyntaxError ''Unexpected token'')"
    by (simp_all add: example_host_def example_parse_def)
  show ?thesis
    using write_context_stores[OF a(1) a(2), of example_host emptyContext]
          write_context_stores[OF a(3) a(4), of example_host emptyContext] p
    by (simp add: WriteContextTool_def)
qed

section \<open>The tool registry\<close>

lemma find_app:
  "find P (xs @ ys) = (case find P xs of None \<Rightarrow> find P ys | Some x \<Rightarrow> Some x)"
  by (induction xs) simp_all

lemma map_of_setAll:
  "map_of (setAll toolMap ts) n =
     (case find (\<lambda>tool. name tool = n) (rev ts) of Some tool \<Rightarrow> Some tool | None \<Rightarrow> map_of toolMap n)"
  unfolding setAll_def
proof (induction ts arbitrary: toolMap)
  case Nil
  then show ?case by simp
next
  case (Cons t ts)
  show ?case
    by (simp add: Cons.IH update_conv' find_app split: option.splits)
qed

text \<open>
  C9. The registry that \<open>execute\<close> builds for an action made by the constructor maps a name
  to the last tool of that name in the order: declared tools, the write-context tool, the
  tools of the context, the return tool. So the return tool shadows every tool of its name,
  a tool of the context shadows a declared tool and the write-context tool of its name, and
  the write-context tool shadows a declared tool of its name.
\<close>

theorem toolMap_later_entries_win:
  "map_of (buildToolMap (new_ActionImpl host nm descr declared provider config config_maxRounds) caller
             (createReturnTool outputSchema)) n
   = find (\<lambda>tool. name tool = n)
       (rev (declared @ [WriteContextTool host]
             @ (case context_tools caller of Some ts \<Rightarrow> ts | None \<Rightarrow> [])
             @ [createReturnTool outputSchema]))"
  by (simp add: buildToolMap_def new_ActionImpl_def update_conv' map_of_setAll find_app
           createReturnTool_def WriteContextTool_def split: option.splits)

text \<open>
  The order (declared, context, write-context, return) does not hold: a tool that the
  context supplies under the name \<open>write_context\<close> is what the registry holds under that name,
  where that order would give the synthetic tool.
\<close>

theorem context_tool_shadows_write_context:
  "map_of (buildToolMap (exampleAction [] []) \<lparr>context_tools = Some [contextWriteTool], callback = None\<rparr>
             (createReturnTool JUndefined)) ''write_context''
     = Some contextWriteTool \<and>
   find (\<lambda>tool. name tool = ''write_context'')
     (rev ([] @ [contextWriteTool] @ [WriteContextTool example_host, createReturnTool JUndefined]))
     = Some (WriteContextTool example_host) \<and>
   description contextWriteTool \<noteq> description (WriteContextTool example_host)"
  by (simp add: buildToolMap_def exampleAction_def new_ActionImpl_def setAll_def contextWriteTool_def
        WriteContextTool_def createReturnTool_def)

section \<open>The round executor: the pairing of tool-use and tool-result messages\<close>

lemma resultMessage_isToolResult:
  "resultMessage host toolCall result = Inr m \<Longrightarrow> isToolResultMessage m \<and> \<not> isToolUseMessage m"
  by (auto simp: resultMessage_def isToolResultMessage_def isToolUseMessage_def split: sum.splits if_splits)

lemma errorResult_isToolResult:
  "isToolResultMessage (errorResult toolCall err) \<and> \<not> isToolUseMessage (errorResult toolCall err)"
  by (simp add: errorResult_def isToolResultMessage_def isToolUseMessage_def)

lemma skipResult_isToolResult:
  "isToolResultMessage (skipResult toolCall) \<and> \<not> isToolUseMessage (skipResult toolCall)"
  by (simp add: skipResult_def isToolResultMessage_def isToolUseMessage_def)

text \<open>
  What one resumption does to the local variables and to the stage of the unit.
\<close>

lemma resumeStage_cases:
  assumes "resumeStage host cb cur st v ctx = (v', ctx', st')"
  shows "(settled st \<and> v' = v \<and> ctx' = ctx \<and> st' = st) \<or>
         (\<not> settled st \<and> \<not> settled st' \<and> v' = v \<and> awaitsAhead st' < awaitsAhead st) \<or>
         (\<not> settled st \<and> ctx' = ctx \<and>
            (\<exists>m. st' = Settled m \<and> v' = assign cur m v \<and> isToolResultMessage m \<and> \<not> isToolUseMessage m))"
proof (cases st)
  case (AwaitBefore tool toolCall outcome)
  then show ?thesis using assms
    by (auto simp: caught_def afterBefore_def errorResult_isToolResult skipResult_isToolResult
             split: sum.splits if_splits prod.splits)
next
  case (AwaitExecute tool toolCall outcome)
  then show ?thesis using assms
    by (auto simp: caught_def built_def errorResult_isToolResult
             dest: resultMessage_isToolResult
             split: sum.splits if_splits prod.splits option.splits)
next
  case (AwaitAfter toolCall result outcome)
  then show ?thesis using assms
    by (auto simp: caught_def built_def errorResult_isToolResult
             dest: resultMessage_isToolResult
             split: sum.splits if_splits prod.splits option.splits)
next
  case (Settled m)
  then show ?thesis using assms by auto
qed

lemma start_cases:
  assumes "start cb tool toolCall v ctx = (v', ctx', st')"
  shows "(\<not> settled st' \<and> v' = v) \<or>
         (\<exists>m. st' = Settled m \<and> v' = v\<lparr>toolResultMessage := Some m\<rparr> \<and>
              isToolResultMessage m \<and> \<not> isToolUseMessage m)"
  using assms
  by (auto simp: start_def Let_def afterBefore_def assign_def skipResult_isToolResult
           split: option.splits prod.splits if_splits)









text \<open>
  Three resumptions settle a unit.
\<close>

lemma resume_stage:
  assumes "resume host cb i (v, ctx, pool) = (v', ctx', pool')"
  shows "length pool' = length pool \<and>
         (i < length pool \<longrightarrow>
            awaitsAhead (stage (pool' ! i)) \<le> awaitsAhead (stage (pool ! i)) - 1 \<and>
            (awaitsAhead (stage (pool' ! i)) = 0) = settled (stage (pool' ! i)))"
proof (cases "i < length pool")
  case False
  then show ?thesis using assms by auto
next
  case True
  obtain v1 ctx1 st1 where r: "resumeStage host cb (current (pool ! i)) (stage (pool ! i)) v ctx = (v1, ctx1, st1)"
    by (cases "resumeStage host cb (current (pool ! i)) (stage (pool ! i)) v ctx")
  have p: "pool' = pool[i := (pool ! i)\<lparr>stage := st1\<rparr>]" using assms True r by simp
  have z: "(awaitsAhead st1 = 0) = settled st1" by (cases st1) simp_all
  from resumeStage_cases[OF r] have "awaitsAhead st1 \<le> awaitsAhead (stage (pool ! i)) - 1"
    by (cases "stage (pool ! i)") auto
  then show ?thesis using True p z by simp
qed

lemma awaitsAhead_le: "awaitsAhead st \<le> 3"
  by (cases st) simp_all

lemma settle_settled:
  assumes "settle host cb i (v, ctx, pool) = (v', ctx', pool')" and "i < length pool"
  shows "length pool' = length pool \<and> settled (stage (pool' ! i))"
proof -
  obtain v1 c1 p1 where r1: "resume host cb i (v, ctx, pool) = (v1, c1, p1)"
    by (cases "resume host cb i (v, ctx, pool)")
  obtain v2 c2 p2 where r2: "resume host cb i (v1, c1, p1) = (v2, c2, p2)"
    by (cases "resume host cb i (v1, c1, p1)")
  have r3: "resume host cb i (v2, c2, p2) = (v', ctx', pool')"
    using assms(1) r1 r2 by (simp add: settle_def)
  note a1 = resume_stage[OF r1] and a2 = resume_stage[OF r2] and a3 = resume_stage[OF r3]
  have l: "length p1 = length pool" "length p2 = length pool" "length pool' = length pool"
    using a1 a2 a3 by simp_all
  have "awaitsAhead (stage (p1 ! i)) \<le> 2" using a1 assms(2) awaitsAhead_le[of "stage (pool ! i)"] by arith
  then have "awaitsAhead (stage (p2 ! i)) \<le> 1" using a2 assms(2) l by arith
  then have "awaitsAhead (stage (pool' ! i)) = 0" using a3 assms(2) l by arith
  then show ?thesis using a3 assms(2) l by simp
qed









section \<open>The round executor: a tool that raises\<close>

lemma resumeStage_runOn:
  assumes "resumeStage host cb cur st v ctx = (v', ctx', st')"
  shows "runOn host cb (st, ctx) = (st', ctx')"
proof (cases st)
  case (AwaitBefore tool toolCall outcome)
  then show ?thesis using assms
    by (auto simp: runOn_def caught_def afterBefore_def split: sum.splits if_splits prod.splits)
next
  case (AwaitExecute tool toolCall outcome)
  then show ?thesis using assms
    by (auto simp: runOn_def caught_def built_def split: sum.splits if_splits prod.splits option.splits)
next
  case (AwaitAfter toolCall result outcome)
  then show ?thesis using assms
    by (auto simp: runOn_def caught_def built_def split: sum.splits if_splits prod.splits option.splits)
next
  case (Settled m)
  then show ?thesis using assms by (auto simp: runOn_def)
qed

lemma runOn_settled: "settled st \<Longrightarrow> runOn host cb (st, ctx) = (st, ctx)"
  by (cases st) (simp_all add: runOn_def)

lemma runOn_ahead:
  assumes "runOn host cb (st, ctx) = (st', ctx')"
  shows "awaitsAhead st' \<le> awaitsAhead st - 1"
proof -
  obtain v1 where r: "resumeStage host cb False st initialRoundVars ctx = (v1, ctx', st')"
    using assms by (auto simp: runOn_def split: prod.splits)
  from resumeStage_cases[OF r] show ?thesis by (cases st) auto
qed

lemma finishStage_settled:
  assumes "finishStage host cb (st, ctx) = (st', ctx')"
  shows "settled st'"
proof -
  obtain s1 c1 where r1: "runOn host cb (st, ctx) = (s1, c1)" by (cases "runOn host cb (st, ctx)")
  obtain s2 c2 where r2: "runOn host cb (s1, c1) = (s2, c2)" by (cases "runOn host cb (s1, c1)")
  have r3: "runOn host cb (s2, c2) = (st', ctx')" using assms r1 r2 by (simp add: finishStage_def)
  have "awaitsAhead s1 \<le> 2" using runOn_ahead[OF r1] awaitsAhead_le[of st] by arith
  then have "awaitsAhead s2 \<le> 1" using runOn_ahead[OF r2] by arith
  then have "awaitsAhead st' = 0" using runOn_ahead[OF r3] by arith
  then show ?thesis by (cases st') simp_all
qed

lemma finishStage_runOn: "finishStage host cb (runOn host cb x) = finishStage host cb x"
proof -
  obtain st ctx where x: "x = (st, ctx)" by (cases x)
  obtain st' ctx' where f: "finishStage host cb (st, ctx) = (st', ctx')" by (cases "finishStage host cb (st, ctx)")
  have "runOn host cb (finishStage host cb (st, ctx)) = finishStage host cb (st, ctx)"
    unfolding f using runOn_settled[OF finishStage_settled[OF f]] .
  then show ?thesis unfolding x finishStage_def .
qed

lemma finishStage_fixed: "settled st \<Longrightarrow> finishStage host cb (st, ctx) = (st, ctx)"
  by (simp add: finishStage_def runOn_settled)

lemma finishStage_AwaitAfter:
  "finishStage host cb (AwaitAfter toolCall result outcome, ctx)
   = (Settled (case outcome of
                 Inl e \<Rightarrow> errorResult toolCall e
               | Inr modified \<Rightarrow>
                   (case resultMessage host toolCall (if truthy modified then modified else result) of
                      Inr m \<Rightarrow> m
                    | Inl e \<Rightarrow> errorResult toolCall e)), ctx)"
proof -
  have "runOn host cb (AwaitAfter toolCall result outcome, ctx)
   = (Settled (case outcome of
                 Inl e \<Rightarrow> errorResult toolCall e
               | Inr modified \<Rightarrow>
                   (case resultMessage host toolCall (if truthy modified then modified else result) of
                      Inr m \<Rightarrow> m
                    | Inl e \<Rightarrow> errorResult toolCall e)), ctx)"
    by (simp add: runOn_def caught_def built_def split: sum.splits)
  then show ?thesis
    using finishStage_runOn[of host cb "(AwaitAfter toolCall result outcome, ctx)"]
    by (simp add: finishStage_fixed)
qed

lemma finishStage_AwaitExecute:
  "finishStage host cb (AwaitExecute tool toolCall outcome, ctx)
   = (case outcome of
        Inl e \<Rightarrow> (Settled (errorResult toolCall e), ctx)
      | Inr result \<Rightarrow>
          (case hookOf cb afterToolUse of
             None \<Rightarrow> (Settled (case resultMessage host toolCall result of
                                 Inr m \<Rightarrow> m | Inl e \<Rightarrow> errorResult toolCall e), ctx)
           | Some hook \<Rightarrow>
               (case hook tool ctx result of
                  (outcome', ctx') \<Rightarrow> finishStage host cb (AwaitAfter toolCall result outcome', ctx'))))"
proof -
  have "runOn host cb (AwaitExecute tool toolCall outcome, ctx)
   = (case outcome of
        Inl e \<Rightarrow> (Settled (errorResult toolCall e), ctx)
      | Inr result \<Rightarrow>
          (case hookOf cb afterToolUse of
             None \<Rightarrow> (Settled (case resultMessage host toolCall result of
                                 Inr m \<Rightarrow> m | Inl e \<Rightarrow> errorResult toolCall e), ctx)
           | Some hook \<Rightarrow>
               (case hook tool ctx result of
                  (outcome', ctx') \<Rightarrow> (AwaitAfter toolCall result outcome', ctx'))))"
    by (simp add: runOn_def caught_def built_def split: sum.splits option.splits prod.splits)
  then show ?thesis
    using finishStage_runOn[of host cb "(AwaitExecute tool toolCall outcome, ctx)"]
    by (auto simp: finishStage_fixed split: sum.splits option.splits prod.splits)
qed

lemma finishStage_AwaitBefore:
  "finishStage host cb (AwaitBefore tool toolCall outcome, ctx)
   = (case outcome of
        Inl e \<Rightarrow> (Settled (errorResult toolCall e), ctx)
      | Inr modified \<Rightarrow>
          (if ctx_skip ctx \<or> ctx_abort ctx then (Settled (skipResult toolCall), ctx)
           else
             (case execute tool ctx (if truthy modified then modified else tc_input toolCall) of
                (outcome', ctx') \<Rightarrow>
                  finishStage host cb
                    (AwaitExecute tool (if truthy modified then toolCall\<lparr>tc_input := modified\<rparr> else toolCall)
                       outcome', ctx'))))"
proof -
  have "runOn host cb (AwaitBefore tool toolCall outcome, ctx)
   = (case outcome of
        Inl e \<Rightarrow> (Settled (errorResult toolCall e), ctx)
      | Inr modified \<Rightarrow>
          (if ctx_skip ctx \<or> ctx_abort ctx then (Settled (skipResult toolCall), ctx)
           else
             (case execute tool ctx (if truthy modified then modified else tc_input toolCall) of
                (outcome', ctx') \<Rightarrow>
                    (AwaitExecute tool (if truthy modified then toolCall\<lparr>tc_input := modified\<rparr> else toolCall)
                       outcome', ctx'))))"
    by (simp add: runOn_def caught_def afterBefore_def skipResult_def split: sum.splits prod.splits)
  then show ?thesis
    using finishStage_runOn[of host cb "(AwaitBefore tool toolCall outcome, ctx)"]
    by (auto simp: finishStage_fixed split: sum.splits prod.splits if_splits)
qed

lemma toolExecution_alt:
  "toolExecution host cb tool toolCall ctx =
     (case callHook cb beforeToolUse tool (ctx\<lparr>ctx_skip := False\<rparr>) (tc_input toolCall) of
        (Inl e, ctx1) \<Rightarrow> (errorResult toolCall e, ctx1)
      | (Inr inp, ctx1) \<Rightarrow>
          (if ctx_skip ctx1 \<or> ctx_abort ctx1 then (skipResult toolCall, ctx1)
           else (case execute tool ctx1 inp of (outcome, ctx2) \<Rightarrow> afterExecute host cb tool toolCall outcome ctx2)))"
  by (simp add: toolExecution_def tryToolUse_def afterExecute_def split: prod.splits sum.splits)

lemma errorResult_id: "tc_id toolCall' = tc_id toolCall \<Longrightarrow> errorResult toolCall' e = errorResult toolCall e"
  by (simp add: errorResult_def)

lemma resultMessage_id:
  "tc_id toolCall' = tc_id toolCall \<Longrightarrow> resultMessage host toolCall' r = resultMessage host toolCall r"
  by (simp add: resultMessage_def split: sum.splits)

lemma finishStage_afterExecute:
  assumes "tc_id toolCall' = tc_id toolCall"
  shows "finishStage host cb (AwaitExecute tool toolCall' outcome, ctx)
         = (Settled (fst (afterExecute host cb tool toolCall outcome ctx)),
            snd (afterExecute host cb tool toolCall outcome ctx))"
proof (cases outcome)
  case (Inl e)
  then show ?thesis by (simp add: finishStage_AwaitExecute afterExecute_def errorResult_id[OF assms])
next
  case (Inr result)
  show ?thesis
  proof (cases "hookOf cb afterToolUse")
    case None
    then show ?thesis using Inr
      by (simp add: finishStage_AwaitExecute afterExecute_def callHook_def errorResult_id[OF assms]
            resultMessage_id[OF assms] split: sum.splits)
  next
    case (Some hook)
    obtain outcome' ctx' where h: "hook tool ctx result = (outcome', ctx')" by (cases "hook tool ctx result")
    show ?thesis using Inr Some h
      by (cases outcome')
         (simp_all add: finishStage_AwaitExecute finishStage_AwaitAfter afterExecute_def callHook_def
            errorResult_id[OF assms] resultMessage_id[OF assms] split: sum.splits)
  qed
qed

text \<open>
  A unit that runs on from its launch ends as the \<open>try\<close> and the \<open>catch\<close> say.
\<close>

lemma start_finishStage:
  assumes "start cb tool toolCall v ctx = (v', ctx', st)"
  shows "finishStage host cb (st, ctx')
         = (Settled (fst (toolExecution host cb tool toolCall ctx)), snd (toolExecution host cb tool toolCall ctx))"
proof (cases "hookOf cb beforeToolUse")
  case None
  have hook: "callHook cb beforeToolUse tool (ctx\<lparr>ctx_skip := False\<rparr>) (tc_input toolCall)
              = (Inr (tc_input toolCall), ctx\<lparr>ctx_skip := False\<rparr>)"
    using None by (simp add: callHook_def)
  show ?thesis
  proof (cases "ctx_abort ctx")
    case True
    then have "st = Settled (skipResult toolCall)" "ctx' = ctx\<lparr>ctx_skip := False\<rparr>"
      using assms None by (simp_all add: start_def afterBefore_def)
    then show ?thesis using True by (simp add: finishStage_fixed toolExecution_alt hook)
  next
    case False
    obtain outcome ctx2 where e: "execute tool (ctx\<lparr>ctx_skip := False\<rparr>) (tc_input toolCall) = (outcome, ctx2)"
      by (cases "execute tool (ctx\<lparr>ctx_skip := False\<rparr>) (tc_input toolCall)")
    have "st = AwaitExecute tool toolCall outcome" "ctx' = ctx2"
      using assms None False e by (simp_all add: start_def afterBefore_def)
    then show ?thesis using False e
      by (simp add: finishStage_afterExecute[OF refl] toolExecution_alt hook)
  qed
next
  case (Some hook)
  obtain outcome ctx1 where h: "hook tool (ctx\<lparr>ctx_skip := False\<rparr>) (tc_input toolCall) = (outcome, ctx1)"
    by (cases "hook tool (ctx\<lparr>ctx_skip := False\<rparr>) (tc_input toolCall)")
  have st: "st = AwaitBefore tool toolCall outcome" "ctx' = ctx1"
    using assms Some h by (simp_all add: start_def)
  show ?thesis
  proof (cases outcome)
    case (Inl e)
    then show ?thesis unfolding st using Some h
      by (simp add: finishStage_AwaitBefore toolExecution_alt callHook_def)
  next
    case (Inr modified)
    have hook: "callHook cb beforeToolUse tool (ctx\<lparr>ctx_skip := False\<rparr>) (tc_input toolCall)
              = (Inr (if truthy modified then modified else tc_input toolCall), ctx1)"
      using Some h Inr by (simp add: callHook_def)
    show ?thesis
    proof (cases "ctx_skip ctx1 \<or> ctx_abort ctx1")
      case True
      then show ?thesis unfolding st using Inr by (simp add: finishStage_AwaitBefore toolExecution_alt hook)
    next
      case False
      obtain outcome' ctx2 where e:
        "execute tool ctx1 (if truthy modified then modified else tc_input toolCall) = (outcome', ctx2)"
        by (cases "execute tool ctx1 (if truthy modified then modified else tc_input toolCall)")
      have i: "tc_id (if truthy modified then toolCall\<lparr>tc_input := modified\<rparr> else toolCall) = tc_id toolCall"
        by simp
      show ?thesis unfolding st using Inr False e
        by (simp add: finishStage_AwaitBefore toolExecution_alt hook finishStage_afterExecute[OF i])
    qed
  qed
qed

lemma resume_settled:
  assumes "i < length pool \<longrightarrow> settled (stage (pool ! i))"
  shows "resume host cb i (v, ctx, pool) = (v, ctx, pool)"
proof (cases "i < length pool")
  case False
  then show ?thesis by simp
next
  case True
  then obtain m where m: "stage (pool ! i) = Settled m" using assms by (cases "stage (pool ! i)") auto
  have u: "(pool ! i)\<lparr>stage := Settled m\<rparr> = pool ! i"
    using m by (metis ToolUnit.surjective ToolUnit.update_convs(1))
  show ?thesis using True m by (simp add: u)
qed

lemma idle_nth: "idle pool \<Longrightarrow> i < length pool \<Longrightarrow> settled (stage (pool ! i))"
  by (simp add: idle_def list_all_length)

lemma idle_steps:
  "idle pool \<Longrightarrow> foldl (\<lambda>s i. resume host cb i s) (v, ctx, pool) steps = (v, ctx, pool)"
  by (induction steps) (simp_all add: resume_settled idle_nth del: resume.simps)

lemma idle_schedulingPoint:
  "idle pool \<Longrightarrow> \<exists>schedule'. schedulingPoint host cb (schedule, v, ctx, pool) = (schedule', v, ctx, pool)"
  by (cases schedule) (simp_all add: idle_steps del: resume.simps)

lemma idle_drive:
  assumes "idle pool" and "filter isOnToolUse calls = []"
  shows "\<exists>schedule' v'. drive host cb toolMap calls (schedule, v, ctx, pool) = (schedule', v', ctx, pool)"
  using assms(2)
proof (induction calls arbitrary: schedule v)
  case Nil
  then show ?case by simp
next
  case (Cons call calls)
  obtain schedule1 where p: "schedulingPoint host cb (schedule, v, ctx, pool) = (schedule1, v, ctx, pool)"
    using idle_schedulingPoint[OF assms(1)] by blast
  have c: "\<not> isOnToolUse call" and rest: "filter isOnToolUse calls = []"
    using Cons.prems by (auto split: if_splits)
  obtain v1 where d: "deliver host cb toolMap (v, ctx, pool) call = (v1, ctx, pool)"
    using c by (cases call) auto
  show ?case using Cons.IH[OF rest, of schedule1 v1] p d by simp
qed

lemma busy_resume:
  assumes "busy host cb k M C s"
  shows "busy host cb k M C (resume host cb i s)"
proof -
  obtain v ctx pool where s: "s = (v, ctx, pool)" by (cases s)
  note b = assms[unfolded s busy_def, simplified]
  consider (other) "i < length pool \<longrightarrow> settled (stage (pool ! i))" | (unit) "i = k" "\<not> settled (stage (pool ! k))"
  proof (cases "i < k")
    case True
    then have "settled (stage (take k pool ! i))" using b idle_nth[of "take k pool" i] by simp
    then show ?thesis using True that(1) by simp
  next
    case False
    then show ?thesis using that b by (cases "i = k") auto
  qed
  then show ?thesis
  proof cases
    case other
    then show ?thesis using assms unfolding s by (simp only: resume_settled)
  next
    case unit
    obtain v' ctx' st' where r: "resumeStage host cb (current (pool ! k)) (stage (pool ! k)) v ctx = (v', ctx', st')"
      by (cases "resumeStage host cb (current (pool ! k)) (stage (pool ! k)) v ctx")
    have res: "resume host cb i s = (v', ctx', pool[k := (pool ! k)\<lparr>stage := st'\<rparr>])"
      using r s unit b by simp
    have fin: "finishStage host cb (st', ctx') = (Settled M, C)"
      using finishStage_runOn[of host cb "(stage (pool ! k), ctx)"] resumeStage_runOn[OF r] b by simp
    have keep: "toolExecutionPromise v' = Some k" "hasToolUse v'"
      using resumeStage_cases[OF r] b by (auto simp: assign_def split: if_splits)
    have res': "settled st' \<longrightarrow> toolResultMessage v' = Some M"
    proof
      assume st: "settled st'"
      then obtain m where m: "st' = Settled m" "v' = assign (current (pool ! k)) m v"
        using resumeStage_cases[OF r] unit by auto
      have "m = M" using fin m(1) by (simp add: finishStage_fixed)
      then show "toolResultMessage v' = Some M" using m(2) b by (simp add: assign_def)
    qed
    show ?thesis unfolding res busy_def using b fin keep res' by simp
  qed
qed

lemma busy_steps:
  "busy host cb k M C s \<Longrightarrow> busy host cb k M C (foldl (\<lambda>s i. resume host cb i s) s steps)"
  by (induction steps arbitrary: s) (simp_all add: busy_resume del: resume.simps)

lemma busy_schedulingPoint:
  assumes "busy host cb k M C s" and "schedulingPoint host cb (schedule, s) = (schedule', s')"
  shows "busy host cb k M C s'"
  using assms by (cases schedule) (auto simp: busy_steps simp del: resume.simps)

lemma busy_deliver:
  assumes "busy host cb k M C s" and "\<not> isOnToolUse call"
  shows "busy host cb k M C (deliver host cb toolMap s call)"
proof -
  obtain v ctx pool where s: "s = (v, ctx, pool)" by (cases s)
  show ?thesis using assms unfolding s busy_def by (cases call) (simp_all add: onContent_def)
qed

lemma busy_drive:
  assumes "busy host cb k M C s" and "filter isOnToolUse calls = []"
    and "drive host cb toolMap calls (schedule, s) = (schedule', s')"
  shows "busy host cb k M C s'"
  using assms
proof (induction calls arbitrary: schedule s)
  case Nil
  then show ?case by simp
next
  case (Cons call calls)
  obtain schedule1 s1 where p: "schedulingPoint host cb (schedule, s) = (schedule1, s1)"
    by (cases "schedulingPoint host cb (schedule, s)")
  have c: "\<not> isOnToolUse call" and rest: "filter isOnToolUse calls = []"
    using Cons.prems(2) by (auto split: if_splits)
  have "busy host cb k M C s1" using busy_schedulingPoint[OF Cons.prems(1) p] .
  then have "busy host cb k M C (deliver host cb toolMap s1 call)" using c by (rule busy_deliver)
  then show ?case using Cons.IH[OF _ rest] Cons.prems(3) p by simp
qed

lemma busy_launch:
  assumes "idle pool" and "map_of toolMap (tc_name toolCall) = Some tool"
  shows "busy host cb (length pool) (fst (toolExecution host cb tool toolCall ctx))
           (snd (toolExecution host cb tool toolCall ctx))
           (deliver host cb toolMap (v, ctx, pool) (OnToolUse toolCall))"
proof -
  let ?v2 = "v\<lparr>hasToolUse := True,
                toolUseMessage := Some \<lparr>role = Assistant,
                   content = Blocks [ToolUseBlock (tc_id toolCall) (name tool) (tc_input toolCall)]\<rparr>\<rparr>"
  obtain v3 ctx' st' where st: "start cb tool toolCall ?v2 ctx = (v3, ctx', st')"
    by (cases "start cb tool toolCall ?v2 ctx")
  have d: "deliver host cb toolMap (v, ctx, pool) (OnToolUse toolCall)
           = (v3\<lparr>toolExecutionPromise := Some (length pool)\<rparr>, ctx', pool @ [\<lparr>stage = st', current = True\<rparr>])"
    using assms(2) st by (simp add: onToolUse_def Let_def)
  have fin: "finishStage host cb (st', ctx')
         = (Settled (fst (toolExecution host cb tool toolCall ctx)), snd (toolExecution host cb tool toolCall ctx))"
    using start_finishStage[OF st] .
  have has: "hasToolUse v3" using start_cases[OF st] by auto
  have res: "settled st' \<longrightarrow> toolResultMessage v3 = Some (fst (toolExecution host cb tool toolCall ctx))"
  proof
    assume "settled st'"
    then obtain m where m: "st' = Settled m" "v3 = ?v2\<lparr>toolResultMessage := Some m\<rparr>"
      using start_cases[OF st] by auto
    have "m = fst (toolExecution host cb tool toolCall ctx)" using fin m(1) by (simp add: finishStage_fixed)
    then show "toolResultMessage v3 = Some (fst (toolExecution host cb tool toolCall ctx))" using m(2) by simp
  qed
  show ?thesis unfolding d busy_def using assms(1) fin has res by simp
qed

lemma drive_append:
  "drive host cb toolMap (xs @ ys) x = drive host cb toolMap ys (drive host cb toolMap xs x)"
  by (induction xs arbitrary: x) (simp_all split: prod.splits)

text \<open>
  A round whose stream makes one tool call, entered with no unit suspended: in whatever
  order the runtime resumes the units, when the wait is over the unit has settled as if
  nothing had run between its \<open>await\<close>s.
\<close>

lemma single_call_round:
  assumes "idle pool" and "filter isOnToolUse calls = [OnToolUse toolCall]"
    and "map_of toolMap (tc_name toolCall) = Some tool"
    and "await host cb (drive host cb toolMap calls (schedule, v, ctx, pool)) = (schedule', v', ctx', pool')"
  shows "toolResultMessage v' = Some (fst (toolExecution host cb tool toolCall ctx)) \<and>
         ctx' = snd (toolExecution host cb tool toolCall ctx) \<and> hasToolUse v' \<and> idle pool'"
proof -
  let ?M = "fst (toolExecution host cb tool toolCall ctx)"
  let ?C = "snd (toolExecution host cb tool toolCall ctx)"
  from assms(2) obtain pre post where calls: "calls = pre @ OnToolUse toolCall # post"
    and pre': "\<forall>u\<in>set pre. \<not> isOnToolUse u" and post': "[] = filter isOnToolUse post"
    unfolding filter_eq_Cons_iff by blast
  have pre: "filter isOnToolUse pre = []" using pre' by (simp add: filter_empty_conv)
  have post: "filter isOnToolUse post = []" using post' by simp
  obtain schedule1 v1 where d1: "drive host cb toolMap pre (schedule, v, ctx, pool) = (schedule1, v1, ctx, pool)"
    using idle_drive[OF assms(1) pre] by blast
  obtain schedule2 where p2: "schedulingPoint host cb (schedule1, v1, ctx, pool) = (schedule2, v1, ctx, pool)"
    using idle_schedulingPoint[OF assms(1)] by blast
  let ?s2 = "deliver host cb toolMap (v1, ctx, pool) (OnToolUse toolCall)"
  have b2: "busy host cb (length pool) ?M ?C ?s2" using busy_launch[OF assms(1) assms(3)] .
  obtain schedule3 s3 where d3: "drive host cb toolMap post (schedule2, ?s2) = (schedule3, s3)"
    by (cases "drive host cb toolMap post (schedule2, ?s2)")
  have b3: "busy host cb (length pool) ?M ?C s3" using busy_drive[OF b2 post d3] .
  have whole: "drive host cb toolMap calls (schedule, v, ctx, pool) = (schedule3, s3)"
    unfolding calls drive_append d1 using p2 d3 by simp
  obtain schedule4 v4 c4 p4 where p4: "schedulingPoint host cb (schedule3, s3) = (schedule4, v4, c4, p4)"
    by (cases "schedulingPoint host cb (schedule3, s3)") auto
  have b4: "busy host cb (length pool) ?M ?C (v4, c4, p4)" using busy_schedulingPoint[OF b3 p4] .
  note b4' = b4[unfolded busy_def, simplified]
  have st: "settle host cb (length pool) (v4, c4, p4) = (v', ctx', pool')"
    using assms(4) whole p4 b4' by (simp add: await_def)
  have b5: "busy host cb (length pool) ?M ?C (v', ctx', pool')"
    using busy_resume[OF busy_resume[OF busy_resume[OF b4]], of "length pool" "length pool" "length pool"] st
    by (simp add: settle_def)
  note b5' = b5[unfolded busy_def, simplified]
  have fin: "settled (stage (pool' ! length pool))"
    using settle_settled[OF st] b4' by simp
  have c: "ctx' = ?C" using b5' fin by (simp add: finishStage_fixed)
  have "\<forall>j<length pool'. settled (stage (pool' ! j))"
  proof (intro allI impI)
    fix j assume j: "j < length pool'"
    show "settled (stage (pool' ! j))"
    proof (cases "j < length pool")
      case True
      then have "settled (stage (take (length pool) pool' ! j))" using b5' idle_nth[of "take (length pool) pool'" j] by simp
      then show ?thesis using True by simp
    next
      case False
      then have "j = length pool" using j b5' by simp
      then show ?thesis using fin by simp
    qed
  qed
  then have "idle pool'" by (simp add: idle_def list_all_length)
  then show ?thesis using b5' fin c by simp
qed

lemma last_assemble:
  "toolResultMessage v = Some m \<Longrightarrow> last (roundMessages (assemble v)) = m"
  by (simp add: assemble_def)

lemma idle_detach: "idle pool \<Longrightarrow> idle (map detach pool)"
  by (simp add: idle_def detach_def list_all_iff)

lemma toolExecution_catches:
  "tryToolUse host cb tool toolCall ctx = (Inl err, ctx') \<Longrightarrow>
   toolExecution host cb tool toolCall ctx = (errorResult toolCall err, ctx')"
  by (simp add: toolExecution_def)

lemma single_call_round_raises:
  assumes trim: "handleHistoryImageMessages messages = Inr messages'"
    and gen: "generateStream host provider n messages' params = Inr calls"
    and one: "filter isOnToolUse calls = [OnToolUse toolCall]"
    and tool: "map_of toolMap (tc_name toolCall) = Some tool"
    and idle: "idle pool"
    and throws: "tryToolUse host cb tool toolCall ctx = (Inl err, ctx1)"
  shows "\<exists>v0 schedule' pool'.
           executeSingleRound host provider cb n messages params toolMap schedule ctx pool
           = ((if ctx_abort ctx1 then Inl (JsError ''Abort'') else Inr (assemble v0)), messages', schedule', ctx1, pool') \<and>
           idle pool' \<and> hasToolUse v0 \<and> toolResultMessage v0 = Some (errorResult toolCall err)"
proof -
  obtain schedule' v0 ctx' pool' where
    aw: "await host cb (drive host cb toolMap calls (schedule, initialRoundVars, ctx, map detach pool))
           = (schedule', v0, ctx', pool')"
    by (cases "await host cb (drive host cb toolMap calls (schedule, initialRoundVars, ctx, map detach pool))") auto
  note s = single_call_round[OF idle_detach[OF idle] one tool aw, unfolded toolExecution_catches[OF throws], simplified]
  have "executeSingleRound host provider cb n messages params toolMap schedule ctx pool
           = ((if ctx_abort ctx1 then Inl (JsError ''Abort'') else Inr (assemble v0)), messages', schedule', ctx1, pool')"
    unfolding executeSingleRound_def using trim gen aw s by simp
  then show ?thesis using s by blast
qed

text \<open>
  C5. Take a round of the loop, in state \<open>st\<close>, whose stream makes exactly one tool call,
  for a tool that the registry holds, entered with no unit of an earlier round suspended;
  and let the \<open>try\<close> block of the unit of that call raise \<open>err\<close> (from the tool or from a hook)
  and leave the context \<open>ctx1\<close>. Then, in whatever order the runtime resumes the unit: the
  round fails with \<open>Abort\<close> if \<open>__abort\<close> is set in \<open>ctx1\<close>; otherwise it completes, with
  \<open>hasToolUse\<close> true and with, as its last message, the user message whose \<open>tool_result\<close> block
  has \<open>is_error: true\<close> and the text \<open>Error: \<close> followed by the message of the error, or by
  \<open>Unknown error occurred\<close> when what was raised is not an \<open>Error\<close>. And when the round
  completes, within the budget, the loop does not fail on it and leaves no unit suspended:
  it stops if the response called \<open>return_output\<close>, it runs the forced final round if the
  budget is reached, and it runs the next round otherwise.
\<close>

theorem tool_error_becomes_tool_result:
  assumes trim: "handleHistoryImageMessages (loop_messages st) = Inr messages'"
    and gen: "generateStream host (llmProvider action) (rounds st) messages' params = Inr calls"
    and one: "filter isOnToolUse calls = [OnToolUse toolCall]"
    and tool: "map_of toolMap (tc_name toolCall) = Some tool"
    and idle: "idle (loop_units st)"
    and throws: "tryToolUse host (callback caller) tool toolCall (loop_context st) = (Inl err, ctx1)"
  shows "(case executeSingleRound host (llmProvider action) (callback caller) (rounds st) (loop_messages st)
                 params toolMap (loop_schedule st) (loop_context st) (loop_units st) of
            (Inl e, messages'', schedule', ctx', pool') \<Rightarrow> ctx_abort ctx1 \<and> e = JsError ''Abort''
          | (Inr r, messages'', schedule', ctx', pool') \<Rightarrow>
              \<not> ctx_abort ctx1 \<and> ctx' = ctx1 \<and> hasToolUse r \<and>
              last (roundMessages r)
                = \<lparr>role = User,
                   content = Blocks [ToolResultBlock (tc_id toolCall)
                       (ContentArray [SubText (JStr (''Error: '' @
                          (case err of JsError m \<Rightarrow> m | TypeError m \<Rightarrow> m | SyntaxError m \<Rightarrow> m
                           | Thrown x \<Rightarrow> ''Unknown error occurred'')))]) True]\<rparr>) \<and>
         (\<not> ctx_abort ctx1 \<and> roundCount st < maxRounds action \<longrightarrow>
            (case runRound host action caller params toolMap (st\<lparr>roundCount := roundCount st + 1\<rparr>) of
               (Inl e, st1) \<Rightarrow> False
             | (Inr r, st1) \<Rightarrow>
                 loop_context st1 = ctx1 \<and> idle (loop_units st1) \<and>
                 whileLoop host action caller params toolMap returnTool st
                 = (let st2 = st1\<lparr>lastResponse := response r, loop_messages := loop_messages st1 @ roundMessages r\<rparr>
                    in if returnOutputCalled (response r) then st2
                       else if roundCount st2 = maxRounds action then
                         (let st3 = forcedRound host action caller params returnTool maximumReached st2 in
                          if failure st3 \<noteq> None then st3
                          else whileLoop host action caller params toolMap returnTool st3)
                       else whileLoop host action caller params toolMap returnTool st2)))"
proof -
  obtain v0 schedule' pool' where
    round: "executeSingleRound host (llmProvider action) (callback caller) (rounds st) (loop_messages st)
                 params toolMap (loop_schedule st) (loop_context st) (loop_units st)
           = ((if ctx_abort ctx1 then Inl (JsError ''Abort'') else Inr (assemble v0)), messages', schedule', ctx1, pool')"
    and idle': "idle pool'" and has: "hasToolUse v0"
    and res: "toolResultMessage v0 = Some (errorResult toolCall err)"
    using single_call_round_raises[OF trim gen one tool idle throws] by blast
  have has': "hasToolUse (assemble v0)" using has by (simp add: assemble_def)
  have lst: "last (roundMessages (assemble v0))
                = \<lparr>role = User,
                   content = Blocks [ToolResultBlock (tc_id toolCall)
                       (ContentArray [SubText (JStr (''Error: '' @
                          (case err of JsError m \<Rightarrow> m | TypeError m \<Rightarrow> m | SyntaxError m \<Rightarrow> m
                           | Thrown x \<Rightarrow> ''Unknown error occurred'')))]) True]\<rparr>"
    using last_assemble[OF res] by (simp add: errorResult_def errorMessageOf_def)
  have first: "(case executeSingleRound host (llmProvider action) (callback caller) (rounds st) (loop_messages st)
                 params toolMap (loop_schedule st) (loop_context st) (loop_units st) of
            (Inl e, messages'', schedule', ctx', pool') \<Rightarrow> ctx_abort ctx1 \<and> e = JsError ''Abort''
          | (Inr r, messages'', schedule', ctx', pool') \<Rightarrow>
              \<not> ctx_abort ctx1 \<and> ctx' = ctx1 \<and> hasToolUse r \<and>
              last (roundMessages r)
                = \<lparr>role = User,
                   content = Blocks [ToolResultBlock (tc_id toolCall)
                       (ContentArray [SubText (JStr (''Error: '' @
                          (case err of JsError m \<Rightarrow> m | TypeError m \<Rightarrow> m | SyntaxError m \<Rightarrow> m
                           | Thrown x \<Rightarrow> ''Unknown error occurred'')))]) True]\<rparr>)"
    unfolding round using has' lst by simp
  have second: "(case runRound host action caller params toolMap (st\<lparr>roundCount := roundCount st + 1\<rparr>) of
               (Inl e, st1) \<Rightarrow> False
             | (Inr r, st1) \<Rightarrow>
                 loop_context st1 = ctx1 \<and> idle (loop_units st1) \<and>
                 whileLoop host action caller params toolMap returnTool st
                 = (let st2 = st1\<lparr>lastResponse := response r, loop_messages := loop_messages st1 @ roundMessages r\<rparr>
                    in if returnOutputCalled (response r) then st2
                       else if roundCount st2 = maxRounds action then
                         (let st3 = forcedRound host action caller params returnTool maximumReached st2 in
                          if failure st3 \<noteq> None then st3
                          else whileLoop host action caller params toolMap returnTool st3)
                       else whileLoop host action caller params toolMap returnTool st2))"
    if na: "\<not> ctx_abort ctx1" and lt: "roundCount st < maxRounds action"
  proof -
    obtain schedule'' where
      p: "schedulingPoint host (callback caller) (schedule', initialRoundVars, ctx1, map detach pool')
          = (schedule'', initialRoundVars, ctx1, map detach pool')"
      using idle_schedulingPoint[OF idle_detach[OF idle']] by blast
    define st1 where "st1 = st\<lparr>roundCount := roundCount st + 1, loop_messages := messages', loop_context := ctx1,
                           loop_schedule := schedule'', loop_units := map detach pool', rounds := rounds st + 1\<rparr>"
    have rr: "runRound host action caller params toolMap (st\<lparr>roundCount := roundCount st + 1\<rparr>)
              = (Inr (assemble v0), st1)"
      using round na p by (simp add: runRound_def st1_def)
    have c1: "loop_context st1 = ctx1" and u1: "idle (loop_units st1)"
      using idle_detach[OF idle'] by (simp_all add: st1_def)
    have loop: "whileLoop host action caller params toolMap returnTool st
                 = (let st2 = st1\<lparr>lastResponse := response (assemble v0),
                                 loop_messages := loop_messages st1 @ roundMessages (assemble v0)\<rparr>
                    in if returnOutputCalled (response (assemble v0)) then st2
                       else if roundCount st2 = maxRounds action then
                         (let st3 = forcedRound host action caller params returnTool maximumReached st2 in
                          if failure st3 \<noteq> None then st3
                          else whileLoop host action caller params toolMap returnTool st3)
                       else whileLoop host action caller params toolMap returnTool st2)"
      by (subst whileLoop.simps, subst rr) (simp add: lt has' Let_def)
    show ?thesis unfolding rr using c1 u1 loop by simp
  qed
  show ?thesis
    apply (rule conjI)
     apply (rule first)
    apply (intro impI, elim conjE)
    apply (rule second)
     apply assumption+
    done
qed

lemma boom_trim: "handleHistoryImageMessages (loop_messages (example_state firstUnitEarly)) = Inr example_messages"
  by code_simp

lemma boom_gen:
  "generateStream example_host (llmProvider (exampleAction [boomTool] callsBoom)) (rounds (example_state firstUnitEarly))
     example_messages emptyParameters = Inr boomCalls"
  by code_simp

lemma boom_one: "filter isOnToolUse boomCalls = [OnToolUse boomCall]"
  by (simp add: boomCalls_def)

lemma boom_tool: "map_of [(''boom'', boomTool)] (tc_name boomCall) = Some boomTool"
  by (simp add: boomCall_def)

lemma boom_idle: "idle (loop_units (example_state firstUnitEarly))"
  by (simp add: idle_def example_state_def)

lemma boom_throws:
  "tryToolUse example_host (callback noCaller) boomTool boomCall (loop_context (example_state firstUnitEarly))
   = (Inl (JsError ''boom''), emptyContext)"
  by code_simp

lemma boom_loop:
  "failure (whileLoop example_host (exampleAction [boomTool] callsBoom) noCaller emptyParameters
              [(''boom'', boomTool)] (createReturnTool JUndefined) (example_state firstUnitEarly)) = None \<and>
   rounds (whileLoop example_host (exampleAction [boomTool] callsBoom) noCaller emptyParameters
              [(''boom'', boomTool)] (createReturnTool JUndefined) (example_state firstUnitEarly)) = 3"
  by code_simp

text \<open>
  The model calls a tool that raises \<open>boom\<close>: the round completes with the error as its last
  message, and the loop goes on to the end without a failure.
\<close>

theorem tool_error_becomes_tool_result_witness:
  "(case executeSingleRound example_host (llmProvider (exampleAction [boomTool] callsBoom)) (callback noCaller)
           (rounds (example_state firstUnitEarly)) (loop_messages (example_state firstUnitEarly)) emptyParameters
           [(''boom'', boomTool)] (loop_schedule (example_state firstUnitEarly))
           (loop_context (example_state firstUnitEarly)) (loop_units (example_state firstUnitEarly)) of
      (Inl e, ms, sch, c, pool) \<Rightarrow> False
    | (Inr r, ms, sch, c, pool) \<Rightarrow> c = emptyContext \<and> hasToolUse r \<and> last (roundMessages r) = boomError) \<and>
   (case runRound example_host (exampleAction [boomTool] callsBoom) noCaller emptyParameters [(''boom'', boomTool)]
           ((example_state firstUnitEarly)\<lparr>roundCount := roundCount (example_state firstUnitEarly) + 1\<rparr>) of
      (Inl e, st1) \<Rightarrow> False
    | (Inr r, st1) \<Rightarrow> loop_context st1 = emptyContext \<and> idle (loop_units st1)) \<and>
   failure (whileLoop example_host (exampleAction [boomTool] callsBoom) noCaller emptyParameters
              [(''boom'', boomTool)] (createReturnTool JUndefined) (example_state firstUnitEarly)) = None"
proof -
  note th = tool_error_becomes_tool_result[OF boom_trim boom_gen boom_one boom_tool boom_idle boom_throws,
      of "createReturnTool JUndefined"]
  have na: "\<not> ctx_abort emptyContext" by (simp add: emptyContext_def)
  have lt: "roundCount (example_state firstUnitEarly) < maxRounds (exampleAction [boomTool] callsBoom)"
    by (simp add: example_state_def exampleAction_def new_ActionImpl_def)
  have em: "\<lparr>role = User,
              content = Blocks [ToolResultBlock (tc_id boomCall)
                          (ContentArray [SubText (JStr (''Error: '' @
                             (case JsError ''boom'' of JsError m \<Rightarrow> m | TypeError m \<Rightarrow> m | SyntaxError m \<Rightarrow> m
                              | Thrown x \<Rightarrow> ''Unknown error occurred'')))]) True]\<rparr>
            = boomError"
    by (simp add: boomError_def boomCall_def)
  note th' = th[unfolded em]
  have a: "(case executeSingleRound example_host (llmProvider (exampleAction [boomTool] callsBoom)) (callback noCaller)
           (rounds (example_state firstUnitEarly)) (loop_messages (example_state firstUnitEarly)) emptyParameters
           [(''boom'', boomTool)] (loop_schedule (example_state firstUnitEarly))
           (loop_context (example_state firstUnitEarly)) (loop_units (example_state firstUnitEarly)) of
      (Inl e, ms, sch, c, pool) \<Rightarrow> False
    | (Inr r, ms, sch, c, pool) \<Rightarrow> c = emptyContext \<and> hasToolUse r \<and> last (roundMessages r) = boomError)"
    using th'[THEN conjunct1] na by (auto split: prod.splits sum.splits)
  have b: "(case runRound example_host (exampleAction [boomTool] callsBoom) noCaller emptyParameters [(''boom'', boomTool)]
           ((example_state firstUnitEarly)\<lparr>roundCount := roundCount (example_state firstUnitEarly) + 1\<rparr>) of
      (Inl e, st1) \<Rightarrow> False
    | (Inr r, st1) \<Rightarrow> loop_context st1 = emptyContext \<and> idle (loop_units st1))"
    using th'[THEN conjunct2] na lt by (auto split: prod.splits sum.splits)
  show ?thesis using a b boom_loop by blast
qed

text \<open>
  Three runs in which a tool or a hook raises and the round does not end with the error
  block, or the loop does not go on to a next round. The model calls \<open>boom\<close> and another tool
  in one response: the round returns the pair of the other call, and no message of the round
  has \<open>is_error\<close>. A \<open>beforeToolUse\<close> hook sets \<open>__abort\<close> and raises: the round and \<open>execute\<close> fail
  with \<open>Abort\<close>. An \<open>afterToolUse\<close> hook raises on the result of \<open>return_output\<close>: the round ends
  with the error block, and the loop stops after this one round, since the response called
  \<open>return_output\<close>; \<open>execute\<close> returns 42.
\<close>

theorem tool_error_block_lost_or_loop_ended:
  "fst (execute boomTool emptyContext (JObj [])) = Inl (JsError ''boom'') \<and>
   (case executeSingleRound example_host (scriptedProvider [twoToolUseStream ''tu1'' ''boom'' ''tu2'' ''b'']) None 0
           example_messages emptyParameters [(''boom'', boomTool), (''b'', namedTool ''b'')]
           firstUnitEarly emptyContext [] of
      (Inr v, ms, sch, c, pool) \<Rightarrow>
        roundMessages v =
          [\<lparr>role = Assistant, content = Blocks [ToolUseBlock ''tu2'' ''b'' (JObj [])]\<rparr>,
           \<lparr>role = User, content = Blocks [ToolResultBlock ''tu2'' (ContentArray [SubText (JStr ''(json)'')]) False]\<rparr>]
    | (Inl e, ms, sch, c, pool) \<Rightarrow> False) \<and>
   (case executeSingleRound example_host (scriptedProvider writesX) (Some abortingHooks) 0 example_messages
           emptyParameters [(''write_context'', WriteContextTool example_host)] lazily emptyContext [] of
      (Inl e, ms, sch, c, pool) \<Rightarrow> e = JsError ''Abort''
    | (Inr v, ms, sch, c, pool) \<Rightarrow> False) \<and>
   fst (ActionImpl_execute example_host (exampleAction [] writesX) lazily JUndefined
          \<lparr>context_tools = None, callback = Some abortingHooks\<rparr> emptyContext JUndefined)
     = Inl (JsError ''Abort'') \<and>
   ActionImpl_execute example_host (exampleAction [] returnsInRoundOne) lazily JUndefined
          \<lparr>context_tools = None, callback = Some failingAfterHooks\<rparr> emptyContext JUndefined
     = (Inr (JNum 42), emptyContext) \<and>
   rounds (runLoop example_host (exampleAction [] returnsInRoundOne) lazily JUndefined
          \<lparr>context_tools = None, callback = Some failingAfterHooks\<rparr> emptyContext JUndefined) = 1 \<and>
   last (loop_messages (runLoop example_host (exampleAction [] returnsInRoundOne) lazily JUndefined
          \<lparr>context_tools = None, callback = Some failingAfterHooks\<rparr> emptyContext JUndefined))
     = \<lparr>role = User,
        content = Blocks [ToolResultBlock ''tu1'' (ContentArray [SubText (JStr ''Error: rejected'')]) True]\<rparr>"
  by code_simp

section \<open>The round executor: a tool that the registry does not hold\<close>

lemma deliver_unknown_tool:
  "map_of toolMap (tc_name toolCall) = None \<Longrightarrow>
   deliver host cb toolMap (v, ctx, pool) (OnToolUse toolCall) = (v\<lparr>hasToolUse := True\<rparr>, ctx, pool)"
  by (simp add: onToolUse_def)

lemma executeSingleRound_failures:
  assumes "executeSingleRound host provider cb n messages params toolMap schedule ctx pool
           = (Inl e, messages', schedule', ctx', pool')"
  shows "handleHistoryImageMessages messages = Inl e \<or>
         (\<exists>trimmed. handleHistoryImageMessages messages = Inr trimmed \<and>
                    generateStream host provider n trimmed params = Inl e) \<or>
         (e = JsError ''Abort'' \<and> ctx_abort ctx')"
  using assms unfolding executeSingleRound_def
  by (auto split: sum.splits prod.splits if_splits)

text \<open>
  C6. The model calls a tool that the registry does not hold, and calls \<open>return_output\<close> in
  the next round. The promise of \<open>onToolUse\<close> is rejected with \<open>Tool not found\<close>, but the round
  completes, with \<open>hasToolUse\<close> true and no message, the loop runs the second round, and
  \<open>execute\<close> returns 42.
\<close>

theorem unknown_tool_does_not_fail_the_action:
  "fst (onToolUse example_host None [(''return_output'', createReturnTool JUndefined)]
          \<lparr>tc_id = ''tu1'', tc_name = ''nope'', tc_input = JObj []\<rparr> initialRoundVars emptyContext [])
     = Some (JsError ''Tool not found: nope'') \<and>
   (case executeSingleRound example_host (scriptedProvider callsUnknownTool) None 0 example_messages emptyParameters
           [(''return_output'', createReturnTool JUndefined)] lazily emptyContext [] of
      (Inr v, ms, sch, c, pool) \<Rightarrow>
        hasToolUse v \<and> roundMessages v = [] \<and> toolUseMessage v = None \<and> toolResultMessage v = None
    | (Inl e, ms, sch, c, pool) \<Rightarrow> False) \<and>
   ActionImpl_execute example_host (exampleAction [] callsUnknownTool) lazily JUndefined noCaller emptyContext JUndefined
     = (Inr (JNum 42), emptyContext) \<and>
   rounds (runLoop example_host (exampleAction [] callsUnknownTool) lazily JUndefined noCaller emptyContext JUndefined) = 2"
  by code_simp

section \<open>The action loop\<close>





lemma getOutput_returnTool:
  "getProp params ''value'' = Inr val \<Longrightarrow>
   getOutput (snd (execute (createReturnTool outputSchema) c params)) = val"
  by (simp add: createReturnTool_def returnTool_execute_def getOutput_def update_conv')

text \<open>
  C2. When \<open>execute\<close> returns, the loop has not failed; the value returned is the value that
  the variable store holds under \<open>__action_output\<close> when the loop ends, or \<open>{}\<close> when that is
  \<open>undefined\<close> (the key absent, or \<open>undefined\<close> stored); the key is absent from the store that
  \<open>execute\<close> leaves, and every other key is as the loop left it. The return tool stores its
  \<open>value\<close> argument under that key.
\<close>

theorem execute_returns_stored_output:
  assumes "ActionImpl_execute host action schedule inp caller ctx outputSchema = (Inr out, ctx')"
  shows "failure (runLoop host action schedule inp caller ctx outputSchema) = None \<and>
         out = (if getOutput (loop_context (runLoop host action schedule inp caller ctx outputSchema)) = JUndefined then JObj []
                else getOutput (loop_context (runLoop host action schedule inp caller ctx outputSchema))) \<and>
         map_of (variables ctx') (JStr ''__action_output'') = None \<and>
         (\<forall>k. k \<noteq> JStr ''__action_output'' \<longrightarrow>
            map_of (variables ctx') k = map_of (variables (loop_context (runLoop host action schedule inp caller ctx outputSchema))) k) \<and>
         (\<forall>c params val. getProp params ''value'' = Inr val \<longrightarrow>
            getOutput (snd (execute (createReturnTool outputSchema) c params)) = val)"
  using assms
  by (auto simp: ActionImpl_execute_def Let_def deleteOutput_def delete_conv' getOutput_returnTool
           split: option.splits)

lemma returnsInRoundOne_value:
  "ActionImpl_execute example_host (exampleAction [] returnsInRoundOne) lazily JUndefined noCaller emptyContext JUndefined
     = (Inr (JNum 42), emptyContext)"
  by code_simp

lemma returnsInRoundOne_loop:
  "getOutput (loop_context (runLoop example_host (exampleAction [] returnsInRoundOne) lazily JUndefined noCaller emptyContext JUndefined))
     = JNum 42 \<and>
   rounds (runLoop example_host (exampleAction [] returnsInRoundOne) lazily JUndefined noCaller emptyContext JUndefined) = 1"
  by code_simp

theorem execute_returns_stored_output_witness:
  "ActionImpl_execute example_host (exampleAction [] returnsInRoundOne) lazily JUndefined noCaller emptyContext JUndefined
     = (Inr (JNum 42), emptyContext) \<and>
   getOutput (loop_context (runLoop example_host (exampleAction [] returnsInRoundOne) lazily JUndefined noCaller emptyContext JUndefined))
     = JNum 42 \<and>
   map_of (variables emptyContext) (JStr ''__action_output'') = None \<and>
   getOutput (snd (execute (createReturnTool JUndefined) emptyContext (JObj [(''value'', JNum 42)]))) = JNum 42"
proof -
  have g: "getProp (JObj [(''value'', JNum 42)]) ''value'' = Inr (JNum 42)" by simp
  show ?thesis
    using execute_returns_stored_output[OF returnsInRoundOne_value] returnsInRoundOne_value returnsInRoundOne_loop g
    by blast
qed

text \<open>
  The value under \<open>__action_output\<close> need not come from the return tool: the model calls
  \<open>write_context\<close> with that key and the value \<open>"5"\<close>, then answers in plain text in the
  second round and in the forced final round. \<open>return_output\<close> is never called, and \<open>execute\<close>
  returns 5, not \<open>{}\<close>.
\<close>

theorem execute_output_without_return_tool:
  "ActionImpl_execute example_host (exampleAction [] writesOutputKey) lazily JUndefined noCaller emptyContext JUndefined
     = (Inr (JNum 5), emptyContext) \<and>
   JNum 5 \<noteq> JObj [] \<and>
   rounds (runLoop example_host (exampleAction [] writesOutputKey) lazily JUndefined noCaller emptyContext JUndefined) = 3"
  by code_simp

end
